theory Spec2Isabelle
  imports Main "HOL-Library.Sublist"
begin

section \<open>Errors\<close>

text \<open>
  Go errors are values. The constructors below are the errors that the two source files
  create or inspect: the sentinel \<^verbatim>\<open>precache.ErrFailed\<close>, the two context errors, API
  status errors with their reason, the connection-refused errno, the file-does-not-exist
  error of package os, an error that only
  carries a message (\<^verbatim>\<open>fmt.Errorf\<close> without \<^verbatim>\<open>%w\<close>, or any collaborator error), and
  \<^verbatim>\<open>fmt.Errorf(prefix + "%w", err)\<close>, which keeps the wrapped error reachable. In both
  source files every \<^verbatim>\<open>%w\<close> is the last verb of its format string.
\<close>

datatype statusReason =
    StatusReasonConflict
  | StatusReasonInternalError
  | StatusReasonServiceUnavailable
  | StatusReasonNotFound
  | StatusReasonOther

datatype error =
    ErrFailed
  | Canceled
  | DeadlineExceeded
  | APIStatus statusReason
  | ECONNREFUSED
  | ErrNotExist
  | ErrorString string
  | Wrapped string error

text \<open>\<^verbatim>\<open>errors.Is(err, target)\<close>: the target is the error or is reachable by unwrapping.\<close>

fun errorsIs :: "error \<Rightarrow> error \<Rightarrow> bool" where
  "errorsIs (Wrapped p e) target = (Wrapped p e = target \<or> errorsIs e target)"
| "errorsIs e target = (e = target)"

text \<open>
  \<^verbatim>\<open>err.Error()\<close>: the message. A wrapping error prints its prefix and then the wrapped
  message. The texts given to the sentinel, the API status error and the two errno-like
  errors stand for the texts of their libraries; no property below depends on them.
\<close>

fun errorMessage :: "error \<Rightarrow> string" where
  "errorMessage ErrFailed = ''precaching failed''"
| "errorMessage Canceled = ''context canceled''"
| "errorMessage DeadlineExceeded = ''context deadline exceeded''"
| "errorMessage (APIStatus r) = ''api status error''"
| "errorMessage ECONNREFUSED = ''connection refused''"
| "errorMessage ErrNotExist = ''file does not exist''"
| "errorMessage (ErrorString s) = s"
| "errorMessage (Wrapped p e) = p @ errorMessage e"

text \<open>\<^verbatim>\<open>fmt.Sprintf("%d", n)\<close>: the decimal rendering of an integer.\<close>

fun fmtNat :: "nat \<Rightarrow> string" where
  "fmtNat n =
     (if n < 10 then [''0123456789'' ! n]
      else fmtNat (n div 10) @ [''0123456789'' ! (n mod 10)])"

declare fmtNat.simps [simp del]

definition fmtD :: "int \<Rightarrow> string" where
  "fmtD i = (if i < 0 then CHR ''-'' # fmtNat (nat (- i)) else fmtNat (nat i))"

section \<open>Package common: duplicate removal and configmap retrieval\<close>

text \<open>
  \<^verbatim>\<open>RemoveDuplicates\<close>: the loop over \<^verbatim>\<open>list\<close> carries the slice \<^verbatim>\<open>result\<close> and the map
  \<^verbatim>\<open>mp\<close>; an item already present in \<^verbatim>\<open>mp\<close> is skipped, any other is appended and
  recorded.
\<close>

fun RemoveDuplicates_loop :: "'a list \<Rightarrow> 'a list \<Rightarrow> ('a \<rightharpoonup> bool) \<Rightarrow> 'a list" where
  "RemoveDuplicates_loop [] result mp = result"
| "RemoveDuplicates_loop (item # list) result mp =
     (case mp item of
        Some present \<Rightarrow> RemoveDuplicates_loop list result mp
      | None \<Rightarrow> RemoveDuplicates_loop list (result @ [item]) (mp(item \<mapsto> True)))"

definition RemoveDuplicates :: "'a list \<Rightarrow> 'a list" where
  "RemoveDuplicates list = RemoveDuplicates_loop list [] Map.empty"

text \<open>
  The property in the claim's words: the distinct elements, each once, in order of first
  occurrence. The head is kept and every later copy of it is dropped.
\<close>

function firstOccurrences :: "'a list \<Rightarrow> 'a list" where
  "firstOccurrences [] = []"
| "firstOccurrences (x # xs) = x # firstOccurrences (removeAll x xs)"
  by pat_completeness auto
termination
  by (relation "measure length") (auto simp: less_Suc_eq_le)

record ConfigMapRef =
  Name :: string
  Namespace :: string

text \<open>
  The cluster client is a collaborator: \<^verbatim>\<open>c.Get\<close> fails or yields the configmap. The
  model gives it the number of calls made before, so that it may answer differently over
  time, and the key.
\<close>

type_synonym 'cm client = "nat \<Rightarrow> ConfigMapRef \<Rightarrow> error + 'cm"

definition GetConfigMap :: "'cm client \<Rightarrow> nat \<Rightarrow> ConfigMapRef \<Rightarrow> error + 'cm" where
  "GetConfigMap c calls configMap =
     (case c calls configMap of
        Inl err \<Rightarrow> Inl (Wrapped ''failed to get configMap '' err)
      | Inr cm \<Rightarrow> Inr cm)"

text \<open>The first loop of \<^verbatim>\<open>GetConfigMaps\<close>: \<^verbatim>\<open>cmSet\<close> and \<^verbatim>\<open>uniqueCms\<close>.\<close>

fun GetConfigMaps_unique ::
  "ConfigMapRef list \<Rightarrow> (ConfigMapRef \<rightharpoonup> bool) \<Rightarrow> ConfigMapRef list \<Rightarrow> ConfigMapRef list" where
  "GetConfigMaps_unique [] cmSet uniqueCms = uniqueCms"
| "GetConfigMaps_unique (cm # configMaps) cmSet uniqueCms =
     (case cmSet cm of
        None \<Rightarrow> GetConfigMaps_unique configMaps (cmSet(cm \<mapsto> True)) (uniqueCms @ [cm])
      | Some found \<Rightarrow> GetConfigMaps_unique configMaps cmSet uniqueCms)"

text \<open>
  The second loop: one \<^verbatim>\<open>GetConfigMap\<close> per unique reference, returning at the first
  error. The last argument logs the references the client was asked for, in order.
\<close>

fun GetConfigMaps_fetch ::
  "'cm client \<Rightarrow> ConfigMapRef list \<Rightarrow> 'cm list \<Rightarrow> ConfigMapRef list
     \<Rightarrow> (error + 'cm list) \<times> ConfigMapRef list" where
  "GetConfigMaps_fetch c [] cms fetched = (Inr cms, fetched)"
| "GetConfigMaps_fetch c (cm # uniqueCms) cms fetched =
     (case GetConfigMap c (length fetched) cm of
        Inl err \<Rightarrow> (Inl err, fetched @ [cm])
      | Inr existingCm \<Rightarrow>
          GetConfigMaps_fetch c uniqueCms (cms @ [existingCm]) (fetched @ [cm]))"

definition GetConfigMaps ::
  "'cm client \<Rightarrow> ConfigMapRef list \<Rightarrow> (error + 'cm list) \<times> ConfigMapRef list" where
  "GetConfigMaps c configMaps =
     GetConfigMaps_fetch c (GetConfigMaps_unique configMaps Map.empty []) [] []"

text \<open>Concrete references and clients used in the examples below.\<close>

definition cmA :: ConfigMapRef where "cmA = \<lparr>Name = ''a'', Namespace = ''ns''\<rparr>"
definition cmB :: ConfigMapRef where "cmB = \<lparr>Name = ''b'', Namespace = ''ns''\<rparr>"

definition clientOk :: "string client" where
  "clientOk calls key = Inr (Name key)"

definition clientFailA :: "string client" where
  "clientFailA calls key = (if key = cmA then Inl (APIStatus StatusReasonNotFound) else Inr (Name key))"

section \<open>Package common: the retry policy\<close>

text \<open>
  Modelled from the spec: the four classifiers belong to the Kubernetes client libraries,
  not to the source files. An API status error carries a reason, found by unwrapping;
  connection refused is the errno, found by unwrapping.
\<close>

fun reasonForError :: "error \<Rightarrow> statusReason option" where
  "reasonForError (APIStatus r) = Some r"
| "reasonForError (Wrapped p e) = reasonForError e"
| "reasonForError e = None"

definition IsConflict :: "error \<Rightarrow> bool" where
  "IsConflict err = (reasonForError err = Some StatusReasonConflict)"

definition IsInternalError :: "error \<Rightarrow> bool" where
  "IsInternalError err = (reasonForError err = Some StatusReasonInternalError)"

definition IsServiceUnavailable :: "error \<Rightarrow> bool" where
  "IsServiceUnavailable err = (reasonForError err = Some StatusReasonServiceUnavailable)"

definition IsConnectionRefused :: "error \<Rightarrow> bool" where
  "IsConnectionRefused err = errorsIs err ECONNREFUSED"

definition isConflictOrRetriable :: "error \<Rightarrow> bool" where
  "isConflictOrRetriable err =
     (IsConflict err \<or> IsInternalError err \<or> IsServiceUnavailable err
      \<or> IsConnectionRefused err)"

text \<open>
  The backoff schedule: a number of steps and the delay slept after each failed attempt
  but the last (the delay's growth is the caller's choice).
\<close>

record Backoff =
  Steps :: int
  delays :: "nat \<Rightarrow> int"

text \<open>
  Modelled from the spec: \<^verbatim>\<open>retry.OnError\<close> is library code. It invokes the operation
  once per step of the schedule, returns at the first success or non-retriable error,
  sleeps between attempts, and returns the last error when the schedule is exhausted.
  The operation is given by the outcome of its \<open>i\<close>-th invocation; the result holds the
  returned error, the number of invocations and the delays slept.
\<close>

fun OnError_loop ::
  "nat \<Rightarrow> Backoff \<Rightarrow> (error \<Rightarrow> bool) \<Rightarrow> (nat \<Rightarrow> error option) \<Rightarrow> nat \<Rightarrow> int list
     \<Rightarrow> error option \<Rightarrow> error option \<times> nat \<times> int list" where
  "OnError_loop 0 backoff retriable fn calls slept lastErr = (lastErr, calls, slept)"
| "OnError_loop (Suc steps) backoff retriable fn calls slept lastErr =
     (case fn calls of
        None \<Rightarrow> (None, Suc calls, slept)
      | Some err \<Rightarrow>
          if retriable err then
            (if steps = 0 then (Some err, Suc calls, slept)
             else OnError_loop steps backoff retriable fn (Suc calls)
                    (slept @ [delays backoff calls]) (Some err))
          else (Some err, Suc calls, slept))"

definition OnError ::
  "Backoff \<Rightarrow> (error \<Rightarrow> bool) \<Rightarrow> (nat \<Rightarrow> error option) \<Rightarrow> error option \<times> nat \<times> int list" where
  "OnError backoff retriable fn =
     OnError_loop (nat (Steps backoff)) backoff retriable fn 0 [] None"

definition RetryOnConflictOrRetriable ::
  "Backoff \<Rightarrow> (nat \<Rightarrow> error option) \<Rightarrow> error option \<times> nat \<times> int list" where
  "RetryOnConflictOrRetriable backoff fn = OnError backoff isConflictOrRetriable fn"

text \<open>An operation that meets a write conflict twice and then succeeds, and a schedule of three steps.\<close>

definition conflictTwiceThenOk :: "nat \<Rightarrow> error option" where
  "conflictTwiceThenOk i = (if i < 2 then Some (APIStatus StatusReasonConflict) else None)"

definition threeSteps :: Backoff where
  "threeSteps = \<lparr>Steps = 3, delays = (\<lambda>i. 10 * 2 ^ i)\<rparr>"

section \<open>Package controllers: data of the prep stage\<close>

text \<open>
  \<^verbatim>\<open>precache.Status\<close>: the state of the precaching job and an optional message. The
  state is a string in the code; the three named states are constants of package
  precache and any other string is \<open>precache_Other\<close>.
\<close>

datatype jobState = precache_Active | precache_Succeeded | precache_Failed | precache_Other

record precacheStatus =
  Status :: jobState
  Message :: string

text \<open>The part of the upgrade resource that the prep stage reads: \<^verbatim>\<open>ibu.Spec.SeedImageRef\<close>.\<close>

record ImageBasedUpgrade =
  Image :: string
  Version :: string
  PullSecretRef :: "string option"

text \<open>\<^verbatim>\<open>semver.Version\<close> of the go-semver library.\<close>

record semverVersion =
  Major :: int
  Minor :: int
  Patch :: int
  PreRelease :: string
  Metadata :: string

text \<open>The pod of the manager: its containers, each with a name and environment variables.\<close>

record EnvVar =
  EnvName :: string
  EnvValue :: string
  ValueFrom :: "string option"

record Container =
  ContainerName :: string
  Env :: "EnvVar list"

text \<open>A channel is identified by a number; \<^verbatim>\<open>make\<close> hands out the next unused one.\<close>

type_synonym chan = nat

datatype cancelFunc = CancelFunc

text \<open>
  Modelled from the spec: the Phase Task State, the type of \<^verbatim>\<open>r.PrepTask\<close>, is declared
  outside the source files. Its fields are active, success, progress, the cancellation
  handle and the completion signal \<^verbatim>\<open>done\<close> (a nil channel is \<open>None\<close>).
\<close>

record Task =
  Active :: bool
  Success :: bool
  Progress :: string
  Cancel :: "cancelFunc option"
  doneChan :: "chan option"

text \<open>
  Modelled from the spec: \<^verbatim>\<open>Reset()\<close> clears active, success and progress to their
  initial values and releases the cancel and done handles.
\<close>

definition Reset :: "Task \<Rightarrow> Task" where
  "Reset t = t\<lparr>Active := False, Success := False, Progress := [], Cancel := None,
     doneChan := None\<rparr>"

text \<open>
  The calls that leave the process, in the order they are made. Every collaborator call
  of the source appends its event, so that "this step was never attempted" is a statement
  about the trace.
\<close>

datatype event =
    EvGetClusterVersion
  | EvGetSecretData string
  | EvWriteFile string
  | EvRemove string
  | EvPodmanPull string string
  | EvPodmanInspect string
  | EvPrepSetupStateroot
  | EvRpmOstreeCleanup
  | EvWriteIBUAutoRollbackConfigFile
  | EvBackupKubeconfigCrypto
  | EvGetReleaseRegistry
  | EvReadSeedClusterInfo
  | EvShouldOverrideSeedRegistry
  | EvReadPrecachingList
  | EvGetPod
  | EvCreateJob "string list" "EnvVar list"
  | EvQueryJobStatus
  | EvSleep int
  | EvPollWait int
  | EvCancel
  | EvClose chan
  | EvGo
  | EvMkdir

text \<open>
  The state that the dispatcher and the worker share and change: the task, the next
  unused channel, the number of status queries made so far, and the trace.
\<close>

record world =
  PrepTask :: Task
  nextChan :: nat
  queries :: nat
  trace :: "event list"

definition logEvent :: "event \<Rightarrow> world \<Rightarrow> world" where
  "logEvent e w = w\<lparr>trace := trace w @ [e]\<rparr>"

definition setProgress :: "string \<Rightarrow> world \<Rightarrow> world" where
  "setProgress msg w = w\<lparr>PrepTask := (PrepTask w)\<lparr>Progress := msg\<rparr>\<rparr>"

text \<open>
  The places where the worker looks at its context: the three \<^verbatim>\<open>select\<close> statements of
  \<^verbatim>\<open>prepStageWorker\<close> and each wait of the polling helper.
\<close>

datatype checkpoint = BeforePull | BeforeStateroot | BeforePrecache | PollWait nat

text \<open>
  The collaborators of one worker run, by their outcomes. \<open>ctxDone\<close> tells for each
  checkpoint whether the derived context is done there, and with which error
  (\<^verbatim>\<open>derivedCtx.Err()\<close>). \<open>QueryJobStatus\<close> is given by the outcome of its \<open>i\<close>-th call:
  the status pointer (nil is \<open>None\<close>) and the error (nil is \<open>None\<close>) it returns, both as
  its Go result type has them.
  Constants of packages common and utils, the semver library, \<^verbatim>\<open>filepath.Join\<close> and
  \<^verbatim>\<open>json.Unmarshal\<close> are parameters as well.
\<close>

record env =
  ctxDone :: "checkpoint \<Rightarrow> error option"
  Host :: string
  statHost :: "error option"
  IBUWorkspacePath :: string
  ImageRegistryAuthFile :: string
  filepathJoin :: "string \<Rightarrow> string \<Rightarrow> string"
  getClusterVersion :: "error + string"
  semverNewVersion :: "string \<Rightarrow> error + semverVersion"
  semverCompare :: "semverVersion \<Rightarrow> semverVersion \<Rightarrow> int"
  GetSecretData :: "error + string"
  WriteFile :: "error option"
  podmanPull :: "error + string"
  podmanInspect :: "error + string"
  jsonUnmarshal :: "string \<Rightarrow> error + (string \<rightharpoonup> string) list"
  SeedFormatOCILabel :: string
  SeedFormatVersion :: int
  prepSetupStateroot :: "error option"
  RpmOstreeCleanup :: "error option"
  WriteIBUAutoRollbackConfigFile :: "error option"
  BackupKubeconfigCrypto :: "error option"
  GetReleaseRegistry :: "error + string"
  ReadSeedClusterInfoFromFile :: "error + unit"
  ShouldOverrideSeedRegistry :: "error + bool"
  ReadPrecachingList :: "error + string list"
  getPod :: "error + Container list"
  CreateJob :: "error option"
  QueryJobStatus :: "nat \<Rightarrow> precacheStatus option \<times> error option"

section \<open>Package controllers: the steps of the prep stage\<close>

text \<open>\<^verbatim>\<open>common.PathOutsideChroot\<close>: the path under the host mount when that mount exists.\<close>

definition PathOutsideChroot :: "env \<Rightarrow> string \<Rightarrow> string" where
  "PathOutsideChroot env filename =
     (case statHost env of
        Some err \<Rightarrow> filename
      | None \<Rightarrow> filepathJoin env (Host env) filename)"

definition checkSeedImageCompatibility :: "env \<Rightarrow> string \<Rightarrow> world \<Rightarrow> error option \<times> world" where
  "checkSeedImageCompatibility env seedImageRef w =
     (let w1 = logEvent (EvPodmanInspect seedImageRef) w in
      (case podmanInspect env of
         Inl err \<Rightarrow> (Some (Wrapped ''failed to inspect image: '' err), w1)
       | Inr inspectRaw \<Rightarrow>
           if inspectRaw = [] then (Some (ErrorString ''failed to inspect image: %!w(<nil>)''), w1)
           else
             (case jsonUnmarshal env inspectRaw of
                Inl err \<Rightarrow> (Some (Wrapped ''failed to unmarshal image inspect output: '' err), w1)
              | Inr inspect \<Rightarrow>
                  if length inspect \<noteq> 1 then
                    (Some (ErrorString (''expected 1 image inspect result, got ''
                       @ fmtD (int (length inspect)))), w1)
                  else
                    (case (inspect ! 0) (SeedFormatOCILabel env) of
                       None \<Rightarrow>
                         (Some (ErrorString (''seed image '' @ seedImageRef @ '' is missing the ''
                            @ SeedFormatOCILabel env
                            @ '' label, please build a new image using the latest version of the lca-cli'')),
                          w1)
                     | Some seedFormatLabelValue \<Rightarrow>
                         if seedFormatLabelValue \<noteq> fmtD (SeedFormatVersion env) then
                           (Some (ErrorString (''seed image format version mismatch: expected ''
                              @ fmtD (SeedFormatVersion env) @ '', got '' @ seedFormatLabelValue)),
                            w1)
                         else (None, w1)))))"

text \<open>The part of \<^verbatim>\<open>getSeedImage\<close> after the pull secret: the pull and the label check.\<close>

definition getSeedImage_pull ::
  "env \<Rightarrow> ImageBasedUpgrade \<Rightarrow> string \<Rightarrow> world \<Rightarrow> error option \<times> world" where
  "getSeedImage_pull env ibu pullSecretFilename w =
     (let w1 = logEvent (EvPodmanPull pullSecretFilename (Image ibu)) w in
      (case podmanPull env of
         Inl err \<Rightarrow> (Some (Wrapped ''failed to pull image: '' err), w1)
       | Inr out \<Rightarrow>
           (case checkSeedImageCompatibility env (Image ibu) w1 of
              (Some err, w2) \<Rightarrow> (Some (Wrapped ''checking seed image compatibility: '' err), w2)
            | (None, w2) \<Rightarrow> (None, w2))))"

text \<open>
  \<^verbatim>\<open>getSeedImage\<close>: with a pull secret reference the secret is read and written to a
  file, and the deferred \<^verbatim>\<open>os.Remove\<close> runs when the function returns.
\<close>

definition getSeedImage :: "env \<Rightarrow> ImageBasedUpgrade \<Rightarrow> world \<Rightarrow> error option \<times> world" where
  "getSeedImage env ibu w =
     (case PullSecretRef ibu of
        None \<Rightarrow> getSeedImage_pull env ibu (ImageRegistryAuthFile env) w
      | Some name \<Rightarrow>
          (let w1 = logEvent (EvGetSecretData name) w in
           (case GetSecretData env of
              Inl err \<Rightarrow>
                (Some (Wrapped (''failed to retrieve pull-secret from secret '' @ name @ '', err: '') err), w1)
            | Inr pullSecret \<Rightarrow>
                (let pullSecretFilename = filepathJoin env (IBUWorkspacePath env) ''seed-pull-secret'';
                     w2 = logEvent (EvWriteFile (PathOutsideChroot env pullSecretFilename)) w1 in
                 (case WriteFile env of
                    Some err \<Rightarrow>
                      (Some (Wrapped (''failed to write seed image pull-secret to file ''
                         @ pullSecretFilename @ '', err: '') err), w2)
                  | None \<Rightarrow>
                      (case getSeedImage_pull env ibu pullSecretFilename w2 of
                         (r, w3) \<Rightarrow>
                           (r, logEvent (EvRemove (PathOutsideChroot env pullSecretFilename)) w3)))))))"

definition validateSeedOcpVersion :: "env \<Rightarrow> string \<Rightarrow> world \<Rightarrow> error option \<times> world" where
  "validateSeedOcpVersion env seedOcpVersion w =
     (let w1 = logEvent EvGetClusterVersion w in
      (case getClusterVersion env of
         Inl err \<Rightarrow> (Some (Wrapped ''failed to get ClusterVersion for target: '' err), w1)
       | Inr targetOCP \<Rightarrow>
           (case semverNewVersion env targetOCP of
              Inl err \<Rightarrow>
                (Some (Wrapped (''failed to parse target version '' @ targetOCP @ '': '') err), w1)
            | Inr targetSemVer \<Rightarrow>
                (case semverNewVersion env seedOcpVersion of
                   Inl err \<Rightarrow>
                     (Some (Wrapped (''failed to parse seed version '' @ seedOcpVersion @ '': '') err), w1)
                 | Inr seedSemVer \<Rightarrow>
                     if semverCompare env seedSemVer targetSemVer \<le> 0 then
                       (Some (ErrorString (''seed OCP version ('' @ seedOcpVersion
                          @ '') must be higher than current OCP version ('' @ targetOCP @ '')'')), w1)
                     else (None, w1)))))"

text \<open>
  \<^verbatim>\<open>getPodEnvVars\<close>: the variables of the first container named manager, leaving out
  those with a \<^verbatim>\<open>valueFrom\<close>.
\<close>

fun getPodEnvVars_containers :: "Container list \<Rightarrow> EnvVar list" where
  "getPodEnvVars_containers [] = []"
| "getPodEnvVars_containers (container # containers) =
     (if ContainerName container = ''manager''
      then filter (\<lambda>envVar. ValueFrom envVar = None) (Env container)
      else getPodEnvVars_containers containers)"

definition getPodEnvVars :: "env \<Rightarrow> world \<Rightarrow> (error + EnvVar list) \<times> world" where
  "getPodEnvVars env w =
     (let w1 = logEvent EvGetPod w in
      (case getPod env of
         Inl err \<Rightarrow> (Inl (Wrapped ''failed to get pod info: '' err), w1)
       | Inr containers \<Rightarrow> (Inr (getPodEnvVars_containers containers), w1)))"

definition launchPrecaching ::
  "env \<Rightarrow> string \<Rightarrow> ImageBasedUpgrade \<Rightarrow> world \<Rightarrow> (bool \<times> error option) \<times> world" where
  "launchPrecaching env imageListFile ibu w =
     (let w1 = logEvent EvGetReleaseRegistry w in
      (case GetReleaseRegistry env of
         Inl err \<Rightarrow> ((False, Some (Wrapped ''failed to get cluster registry: '' err)), w1)
       | Inr clusterRegistry \<Rightarrow>
      (let w2 = logEvent EvReadSeedClusterInfo w1 in
      (case ReadSeedClusterInfoFromFile env of
         Inl err \<Rightarrow> ((False, Some (Wrapped ''failed to read seed info: '' err)), w2)
       | Inr seedInfo \<Rightarrow>
      (let w3 = logEvent EvShouldOverrideSeedRegistry w2 in
      (case ShouldOverrideSeedRegistry env of
         Inl err \<Rightarrow> ((False, Some (Wrapped ''failed to check ShouldOverrideSeedRegistry '' err)), w3)
       | Inr shouldOverrideRegistry \<Rightarrow>
      (let w4 = logEvent EvReadPrecachingList w3 in
      (case ReadPrecachingList env of
         Inl err \<Rightarrow>
           ((False, Some (Wrapped (''failed to read pre-caching image file: ''
              @ PathOutsideChroot env imageListFile @ '', '') err)), w4)
       | Inr imageList \<Rightarrow>
      (case getPodEnvVars env w4 of
         (Inl err, w5) \<Rightarrow> ((False, Some (Wrapped ''failed to get pod env vars: '' err)), w5)
       | (Inr envVars, w5) \<Rightarrow>
      (let w6 = logEvent (EvCreateJob imageList envVars) w5 in
      (case CreateJob env of
         Some err \<Rightarrow> ((False, Some (Wrapped ''failed to create precaching job: '' err)), w6)
       | None \<Rightarrow> ((True, None), w6))))))))))))"

definition SetupStateroot :: "env \<Rightarrow> world \<Rightarrow> error option \<times> world" where
  "SetupStateroot env w =
     (let w1 = logEvent EvPrepSetupStateroot w in
      (case prepSetupStateroot env of
         Some err \<Rightarrow> (Some (Wrapped ''failed to setup stateroot: '' err), w1)
       | None \<Rightarrow>
      (let w2 = logEvent EvRpmOstreeCleanup w1 in
      (case RpmOstreeCleanup env of
         Some err \<Rightarrow> (Some (Wrapped ''failed rpm-ostree cleanup -b: '' err), w2)
       | None \<Rightarrow>
      (let w3 = logEvent EvWriteIBUAutoRollbackConfigFile w2 in
      (case WriteIBUAutoRollbackConfigFile env of
         Some err \<Rightarrow> (Some (Wrapped ''failed to write auto-rollback config: '' err), w3)
       | None \<Rightarrow>
      (let w4 = logEvent EvBackupKubeconfigCrypto w3 in
      (case BackupKubeconfigCrypto env of
         Some err \<Rightarrow> (Some (Wrapped ''failed to backup cerificaties: '' err), w4)
       | None \<Rightarrow> (None, w4)))))))))"

section \<open>Package controllers: the job status poller\<close>

text \<open>
  \<^verbatim>\<open>r.Precache.QueryJobStatus\<close> is a collaborator with the result type
  \<^verbatim>\<open>(*Status, error)\<close>: a call returns a status or nil, and an error or nil, in any
  combination.
\<close>

definition callQueryJobStatus ::
  "env \<Rightarrow> world \<Rightarrow> (precacheStatus option \<times> error option) \<times> world" where
  "callQueryJobStatus env w =
     (QueryJobStatus env (queries w), (logEvent EvQueryJobStatus w)\<lparr>queries := Suc (queries w)\<rparr>)"

text \<open>
  \<^verbatim>\<open>queryPrecachingStatus\<close> has named results: when the query returns an error, the bare
  \<^verbatim>\<open>return\<close> hands back that error together with whatever status came with it.
\<close>

definition queryPrecachingStatus ::
  "env \<Rightarrow> world \<Rightarrow> (precacheStatus option \<times> error option) \<times> world" where
  "queryPrecachingStatus env w =
     (case callQueryJobStatus env w of
        ((status, Some err), w1) \<Rightarrow> ((status, Some err), w1)
      | ((None, None), w1) \<Rightarrow> ((None, None), w1)
      | ((Some status, None), w1) \<Rightarrow>
          if Status status = precache_Failed then ((Some status, Some ErrFailed), w1)
          else ((Some status, None), w1))"

text \<open>
  One iteration of the loop of \<^verbatim>\<open>verifyPrecachingCompleteFunc\<close>, up to the sleep: \<open>Some\<close>
  is the pair the function returns with, \<open>None\<close> means that the loop goes on to sleep and
  retry.
\<close>

definition verifyPrecachingCompleteFunc_attempt ::
  "env \<Rightarrow> world \<Rightarrow> (bool \<times> error option) option \<times> world" where
  "verifyPrecachingCompleteFunc_attempt env w =
     (case queryPrecachingStatus env w of
        ((status, err), w1) \<Rightarrow>
          if (case err of Some e \<Rightarrow> errorsIs e ErrFailed | None \<Rightarrow> False)
          then (Some (False, err), w1)
          else
            (case status of
               Some st \<Rightarrow>
                 (let w2 = (if Message st \<noteq> []
                            then setProgress (''Precaching progress: '' @ Message st) w1
                            else w1) in
                  if Status st = precache_Succeeded then (Some (True, None), w2)
                  else if Status st = precache_Active then (Some (False, None), w2)
                  else (None, w2))
             | None \<Rightarrow> (None, w1)))"

function verifyPrecachingCompleteFunc_loop ::
  "env \<Rightarrow> int \<Rightarrow> int \<Rightarrow> int \<Rightarrow> world \<Rightarrow> (bool \<times> error option) \<times> world" where
  "verifyPrecachingCompleteFunc_loop env retries interval retry w =
     (if retry < retries then
        (case verifyPrecachingCompleteFunc_attempt env w of
           (Some r, w1) \<Rightarrow> (r, w1)
         | (None, w1) \<Rightarrow>
             verifyPrecachingCompleteFunc_loop env retries interval (retry + 1)
               (logEvent (EvSleep interval) w1))
      else
        ((False, Some (ErrorString (''failed more than '' @ fmtD retries
            @ '' times to fetch precaching job status''))), w))"
  by pat_completeness auto
termination
  by (relation "measure (\<lambda>(env, retries, interval, retry, w). nat (retries - retry))") auto

declare verifyPrecachingCompleteFunc_loop.simps [simp del]

definition verifyPrecachingCompleteFunc ::
  "env \<Rightarrow> int \<Rightarrow> int \<Rightarrow> world \<Rightarrow> (bool \<times> error option) \<times> world" where
  "verifyPrecachingCompleteFunc env retries interval w =
     verifyPrecachingCompleteFunc_loop env retries interval 0 w"

text \<open>
  Modelled from the spec: \<^verbatim>\<open>wait.PollUntilContextCancel\<close> with \<^verbatim>\<open>immediate = false\<close> is
  library code. It waits one interval, returns the context's error if the context is done,
  and otherwise calls the condition; it returns when the condition reports done or an
  error, and waits again otherwise. It may run forever: not returning is \<open>None\<close>.
\<close>

partial_function (option) PollUntilContextCancel ::
  "(checkpoint \<Rightarrow> error option) \<Rightarrow> int \<Rightarrow> (world \<Rightarrow> (bool \<times> error option) \<times> world)
     \<Rightarrow> nat \<Rightarrow> world \<Rightarrow> (error option \<times> world) option" where
  "PollUntilContextCancel ctx interval condition i w =
     (case ctx (PollWait i) of
        Some err \<Rightarrow> Some (Some err, w)
      | None \<Rightarrow>
          (case condition (logEvent (EvPollWait interval) w) of
             ((ok, err), w1) \<Rightarrow>
               if err \<noteq> None \<or> ok then Some (err, w1)
               else PollUntilContextCancel ctx interval condition (Suc i) w1))"

section \<open>Package controllers: the worker pipeline\<close>

text \<open>
  The closure given to \<^verbatim>\<open>errGroup.Go\<close> in \<^verbatim>\<open>prepStageWorker\<close>, block by block, from the
  last block to the first. The result is \<open>None\<close> when the wait for the job never returns.
\<close>

definition prepStageWorker_wait :: "env \<Rightarrow> world \<Rightarrow> (error option \<times> world) option" where
  "prepStageWorker_wait env w =
     (let w1 = setProgress ''Waiting for precaching job to complete'' w;
          interval = 30 * 1000000000 in
      (case PollUntilContextCancel (ctxDone env) interval
              (verifyPrecachingCompleteFunc env 5 interval) 0 w1 of
         None \<Rightarrow> None
       | Some (Some err, w2) \<Rightarrow> Some (Some (Wrapped ''failed to precache images: '' err), w2)
       | Some (None, w2) \<Rightarrow>
           (case callQueryJobStatus env w2 of
              (status, w3) \<Rightarrow> Some (None, setProgress ''Prep completed successfully'' w3))))"

definition prepStageWorker_precache ::
  "env \<Rightarrow> ImageBasedUpgrade \<Rightarrow> string \<Rightarrow> world \<Rightarrow> (error option \<times> world) option" where
  "prepStageWorker_precache env ibu imageListFile w =
     (case ctxDone env BeforePrecache of
        Some cerr \<Rightarrow>
          Some (Some (Wrapped ''context canceled before creating precaching job: '' cerr), w)
      | None \<Rightarrow>
          (case launchPrecaching env imageListFile ibu (setProgress ''Creating precaching job'' w) of
             ((ok, Some err), w1) \<Rightarrow>
               Some (Some (Wrapped ''failed to launch pre-caching phase: '' err), w1)
           | ((ok, None), w1) \<Rightarrow>
               if \<not> ok then Some (Some (ErrorString ''failed to create precaching job''), w1)
               else prepStageWorker_wait env
                      (setProgress ''Successfully created precaching job'' w1)))"

definition prepStageWorker_stateroot ::
  "env \<Rightarrow> ImageBasedUpgrade \<Rightarrow> string \<Rightarrow> world \<Rightarrow> (error option \<times> world) option" where
  "prepStageWorker_stateroot env ibu imageListFile w =
     (case ctxDone env BeforeStateroot of
        Some cerr \<Rightarrow>
          Some (Some (Wrapped ''context canceled before setting up stateroot: '' cerr), w)
      | None \<Rightarrow>
          (case SetupStateroot env (setProgress ''Setting up stateroot'' w) of
             (Some err, w1) \<Rightarrow>
               Some (Some (Wrapped ''failed to setup stateroot with prep stage worker: '' err), w1)
           | (None, w1) \<Rightarrow>
               prepStageWorker_precache env ibu imageListFile
                 (setProgress ''Successfully setup stateroot'' w1)))"

definition prepStageWorker_pull ::
  "env \<Rightarrow> ImageBasedUpgrade \<Rightarrow> string \<Rightarrow> world \<Rightarrow> (error option \<times> world) option" where
  "prepStageWorker_pull env ibu imageListFile w =
     (case ctxDone env BeforePull of
        Some cerr \<Rightarrow>
          Some (Some (Wrapped ''context canceled before pulling seed image: '' cerr), w)
      | None \<Rightarrow>
          (case getSeedImage env ibu (setProgress ''Pulling seed image'' w) of
             (Some err, w1) \<Rightarrow> Some (Some (Wrapped ''failed to pull seed image: '' err), w1)
           | (None, w1) \<Rightarrow>
               prepStageWorker_stateroot env ibu imageListFile
                 (setProgress ''Successfully pulled seed image'' w1)))"

definition prepStageWorker_steps ::
  "env \<Rightarrow> ImageBasedUpgrade \<Rightarrow> world \<Rightarrow> (error option \<times> world) option" where
  "prepStageWorker_steps env ibu w =
     (let imageListFile = filepathJoin env (IBUWorkspacePath env) ''image-list-file'' in
      (case validateSeedOcpVersion env (Version ibu) w of
         (Some err, w1) \<Rightarrow>
           Some (Some (Wrapped ''failed to validate seed image OCP version in spec: '' err), w1)
       | (None, w1) \<Rightarrow> prepStageWorker_pull env ibu imageListFile w1))"

text \<open>
  \<^verbatim>\<open>prepStageWorker\<close>: the cancellation handle is stored, the closure runs and is waited
  for, a failure is written to the progress, and the deferred \<^verbatim>\<open>Cancel()\<close> runs last.
\<close>

definition prepStageWorker ::
  "env \<Rightarrow> ImageBasedUpgrade \<Rightarrow> world \<Rightarrow> (error option \<times> world) option" where
  "prepStageWorker env ibu w =
     (case prepStageWorker_steps env ibu (w\<lparr>PrepTask := (PrepTask w)\<lparr>Cancel := Some CancelFunc\<rparr>\<rparr>) of
        None \<Rightarrow> None
      | Some (Some err, w1) \<Rightarrow>
          Some (Some (Wrapped ''encountered error while running prep-stage worker goroutine: '' err),
                logEvent EvCancel (setProgress (''Prep failed with error: '' @ errorMessage err) w1))
      | Some (None, w1) \<Rightarrow> Some (None, logEvent EvCancel w1))"

section \<open>Package controllers: the dispatcher\<close>

text \<open>
  Closing a channel: closing a nil channel or a closed one panics (\<open>None\<close>).
\<close>

definition chanClosed :: "world \<Rightarrow> chan \<Rightarrow> bool" where
  "chanClosed w c = (EvClose c \<in> set (trace w))"

definition closeChan :: "chan option \<Rightarrow> world \<Rightarrow> world option" where
  "closeChan ch w =
     (case ch of
        None \<Rightarrow> None
      | Some c \<Rightarrow> if chanClosed w c then None else Some (logEvent (EvClose c) w))"

text \<open>The receive of \<^verbatim>\<open>select { case <-r.PrepTask.done: ... default: ... }\<close> is ready.\<close>

definition doneFired :: "world \<Rightarrow> bool" where
  "doneFired w = (case doneChan (PrepTask w) of None \<Rightarrow> False | Some c \<Rightarrow> chanClosed w c)"

text \<open>
  The goroutine that \<^verbatim>\<open>handlePrep\<close> starts: it runs the worker, closes the completion
  signal and then records the outcome.
\<close>

datatype goExit = Returned | Panicked

definition prepGoroutine :: "env \<Rightarrow> ImageBasedUpgrade \<Rightarrow> world \<Rightarrow> (goExit \<times> world) option" where
  "prepGoroutine env ibu w =
     (case prepStageWorker env ibu w of
        None \<Rightarrow> None
      | Some (err, w1) \<Rightarrow>
          (case closeChan (doneChan (PrepTask w1)) w1 of
             None \<Rightarrow> Some (Panicked, w1)
           | Some w2 \<Rightarrow>
               Some (Returned, w2\<lparr>PrepTask := (PrepTask w2)\<lparr>Success := (err = None)\<rparr>\<rparr>)))"

text \<open>
  Modelled from the spec: the requeue results and the setters of the externally visible
  phase status are declared outside the source files. The dispatcher returns a requeue
  hint, an error, and the status it published on the resource (\<open>None\<close> if it published
  nothing).
\<close>

datatype ctrlResult = doNotRequeue | requeueWithShortInterval

datatype prepStatus = PrepInProgress string | PrepCompleted string | PrepFailed string

text \<open>The outcomes of the environment checks of one invocation of \<^verbatim>\<open>handlePrep\<close>.\<close>

record preconds =
  pcStatHost :: "error option"
  pcStatWorkspace :: "error option"
  pcMkdir :: "error option"

definition os_IsNotExist :: "error option \<Rightarrow> bool" where
  "os_IsNotExist err = (err = Some ErrNotExist)"

text \<open>The \<^verbatim>\<open>switch\<close> of \<^verbatim>\<open>handlePrep\<close>.\<close>

definition handlePrep_switch ::
  "world \<Rightarrow> (ctrlResult \<times> error option \<times> prepStatus option) \<times> world" where
  "handlePrep_switch w =
     (if \<not> Active (PrepTask w) then
        (let c = nextChan w;
             w1 = w\<lparr>PrepTask := (PrepTask w)\<lparr>doneChan := Some c, Active := True,
                       Success := False, Progress := ''Prep stage initialized''\<rparr>,
                     nextChan := Suc c\<rparr>;
             w2 = logEvent EvGo w1 in
         ((requeueWithShortInterval, None, Some (PrepInProgress (Progress (PrepTask w2)))), w2))
      else if doneFired w then
        ((doNotRequeue, None,
          Some (if Success (PrepTask w) then PrepCompleted (Progress (PrepTask w))
                else PrepFailed (Progress (PrepTask w)))),
         w\<lparr>PrepTask := Reset (PrepTask w)\<rparr>)
      else
        ((requeueWithShortInterval, None, Some (PrepInProgress (Progress (PrepTask w)))), w))"

definition handlePrep ::
  "preconds \<Rightarrow> world \<Rightarrow> (ctrlResult \<times> error option \<times> prepStatus option) \<times> world" where
  "handlePrep pc w =
     (case pcStatHost pc of
        Some err \<Rightarrow> ((doNotRequeue, Some (Wrapped ''host dir does not exist: '' err), None), w)
      | None \<Rightarrow>
          (case (if os_IsNotExist (pcStatWorkspace pc) then (pcMkdir pc, logEvent EvMkdir w)
                 else (pcStatWorkspace pc, w)) of
             (Some err, w1) \<Rightarrow> ((doNotRequeue, Some err, None), w1)
           | (None, w1) \<Rightarrow> handlePrep_switch w1))"

text \<open>
  A run of the system in which no worker completes: the dispatcher is invoked, each time
  with its own outcomes of the environment checks, and a running worker writes its
  progress in between.
\<close>

datatype sysEvent = Reconcile preconds | WorkerProgress string

fun runSystem :: "sysEvent list \<Rightarrow> world \<Rightarrow> world" where
  "runSystem [] w = w"
| "runSystem (Reconcile pc # es) w = runSystem es (snd (handlePrep pc w))"
| "runSystem (WorkerProgress msg # es) w = runSystem es (setProgress msg w)"

definition pipelinesStarted :: "world \<Rightarrow> nat" where
  "pipelinesStarted w = count_list (trace w) EvGo"


text \<open>
  A concrete run for the examples: versions parsed from a table, the seed at \<open>4.14.0\<close>
  and the cluster at \<open>4.13.0\<close>, an image with the expected label, every collaborator
  succeeding, and a precaching job that is active for two queries and then succeeds.
\<close>

definition parseExample :: "string \<Rightarrow> error + semverVersion" where
  "parseExample s =
     (if s = ''4.12.1'' then Inr \<lparr>Major = 4, Minor = 12, Patch = 1, PreRelease = [], Metadata = []\<rparr>
      else if s = ''4.13.0'' then Inr \<lparr>Major = 4, Minor = 13, Patch = 0, PreRelease = [], Metadata = []\<rparr>
      else if s = ''4.14.0'' then Inr \<lparr>Major = 4, Minor = 14, Patch = 0, PreRelease = [], Metadata = []\<rparr>
      else Inl (ErrorString (s @ '' is not in dotted-tri format'')))"

definition compareExample :: "semverVersion \<Rightarrow> semverVersion \<Rightarrow> int" where
  "compareExample a b =
     (if Major a \<noteq> Major b then (if Major a < Major b then - 1 else 1)
      else if Minor a \<noteq> Minor b then (if Minor a < Minor b then - 1 else 1)
      else if Patch a \<noteq> Patch b then (if Patch a < Patch b then - 1 else 1)
      else 0)"

definition envOk :: env where
  "envOk =
     \<lparr>ctxDone = (\<lambda>cp. None),
      Host = ''/host'',
      statHost = None,
      IBUWorkspacePath = ''/var/ibu'',
      ImageRegistryAuthFile = ''/var/lib/kubelet/config.json'',
      filepathJoin = (\<lambda>a b. a @ ''/'' @ b),
      getClusterVersion = Inr ''4.13.0'',
      semverNewVersion = parseExample,
      semverCompare = compareExample,
      GetSecretData = Inr ''auth'',
      WriteFile = None,
      podmanPull = Inr ''pulled'',
      podmanInspect = Inr ''[{}]'',
      jsonUnmarshal = (\<lambda>raw. Inr [[''seed_format_version'' \<mapsto> ''3'']]),
      SeedFormatOCILabel = ''seed_format_version'',
      SeedFormatVersion = 3,
      prepSetupStateroot = None,
      RpmOstreeCleanup = None,
      WriteIBUAutoRollbackConfigFile = None,
      BackupKubeconfigCrypto = None,
      GetReleaseRegistry = Inr ''registry'',
      ReadSeedClusterInfoFromFile = Inr (),
      ShouldOverrideSeedRegistry = Inr False,
      ReadPrecachingList = Inr [''image-1''],
      getPod = Inr [\<lparr>ContainerName = ''manager'', Env = []\<rparr>],
      CreateJob = None,
      QueryJobStatus =
        (\<lambda>i. if i < 2 then (Some \<lparr>Status = precache_Active, Message = ''1 of 2''\<rparr>, None)
             else (Some \<lparr>Status = precache_Succeeded, Message = ''2 of 2''\<rparr>, None))\<rparr>"

definition ibuOk :: ImageBasedUpgrade where
  "ibuOk = \<lparr>Image = ''seed:4.14.0'', Version = ''4.14.0'', PullSecretRef = None\<rparr>"

definition world0 :: world where
  "world0 =
     \<lparr>PrepTask = \<lparr>Active = False, Success = False, Progress = [], Cancel = None, doneChan = None\<rparr>,
      nextChan = 0, queries = 0, trace = []\<rparr>"

definition envJobFailed :: env where
  "envJobFailed =
     envOk\<lparr>QueryJobStatus := (\<lambda>i. (Some \<lparr>Status = precache_Failed, Message = []\<rparr>, None))\<rparr>"




text \<open>
  The step of the worker pipeline (numbered as in the specification: 1 version gate,
  2 image acquisition, 3 compatibility label check, 4 deployment setup, 5 job launch,
  6 job completion wait and final summary) that an event belongs to; 0 for the events
  that are not collaborator calls of a step.
\<close>

fun stepIndex :: "event \<Rightarrow> nat" where
  "stepIndex EvGetClusterVersion = 1"
| "stepIndex (EvGetSecretData name) = 2"
| "stepIndex (EvWriteFile path) = 2"
| "stepIndex (EvRemove path) = 2"
| "stepIndex (EvPodmanPull authfile img) = 2"
| "stepIndex (EvPodmanInspect img) = 3"
| "stepIndex EvPrepSetupStateroot = 4"
| "stepIndex EvRpmOstreeCleanup = 4"
| "stepIndex EvWriteIBUAutoRollbackConfigFile = 4"
| "stepIndex EvBackupKubeconfigCrypto = 4"
| "stepIndex EvGetReleaseRegistry = 5"
| "stepIndex EvReadSeedClusterInfo = 5"
| "stepIndex EvShouldOverrideSeedRegistry = 5"
| "stepIndex EvReadPrecachingList = 5"
| "stepIndex EvGetPod = 5"
| "stepIndex (EvCreateJob imageList envVars) = 5"
| "stepIndex EvQueryJobStatus = 6"
| "stepIndex (EvSleep d) = 6"
| "stepIndex (EvPollWait d) = 6"
| "stepIndex EvCancel = 0"
| "stepIndex (EvClose c) = 0"
| "stepIndex EvGo = 0"
| "stepIndex EvMkdir = 0"

text \<open>The events that a run added to the trace, and the bound on their steps.\<close>

definition newEvents :: "world \<Rightarrow> world \<Rightarrow> event list" where
  "newEvents w w2 = drop (length (trace w)) (trace w2)"

definition stepsBelow :: "nat \<Rightarrow> event list \<Rightarrow> bool" where
  "stepsBelow k evs = list_all (\<lambda>e. stepIndex e < k) evs"

definition ibuOld :: ImageBasedUpgrade where
  "ibuOld = \<lparr>Image = ''seed:4.12.1'', Version = ''4.12.1'', PullSecretRef = None\<rparr>"

text \<open>An image whose format-version label has another value.\<close>

definition envWrongLabel :: env where
  "envWrongLabel = envOk\<lparr>jsonUnmarshal := (\<lambda>raw. Inr [[''seed_format_version'' \<mapsto> ''2'']])\<rparr>"

text \<open>
  Bookkeeping for the proofs about the pipeline: \<open>advanced k w w2\<close> says that \<open>w2\<close> comes
  from \<open>w\<close> by appending events of steps below \<open>k\<close> (or the call of the cancellation
  handle), with the completion signal and the channel counter untouched; \<open>stopped k w res\<close>
  says that a run from \<open>w\<close> returned an error in such a state.
\<close>

definition workerEvent :: "nat \<Rightarrow> event \<Rightarrow> bool" where
  "workerEvent k ev = (ev = EvCancel \<or> (1 \<le> stepIndex ev \<and> stepIndex ev < k))"

definition advanced :: "nat \<Rightarrow> world \<Rightarrow> world \<Rightarrow> bool" where
  "advanced k w w2 =
     (doneChan (PrepTask w2) = doneChan (PrepTask w) \<and> nextChan w2 = nextChan w
      \<and> Active (PrepTask w2) = Active (PrepTask w)
      \<and> (\<exists>evs. trace w2 = trace w @ evs \<and> list_all (workerEvent k) evs))"

definition stopped :: "nat \<Rightarrow> world \<Rightarrow> (error option \<times> world) option \<Rightarrow> bool" where
  "stopped k w res = (\<exists>e w2. res = Some (Some e, w2) \<and> advanced k w w2)"

text \<open>
  A context that is canceled from the start, one that is canceled after the pull stage,
  and the state right after the dispatcher has started a worker.
\<close>

definition envCanceled :: env where
  "envCanceled = envOk\<lparr>ctxDone := (\<lambda>cp. Some Canceled)\<rparr>"

definition envCanceledBeforeStateroot :: env where
  "envCanceledBeforeStateroot =
     envOk\<lparr>ctxDone := (\<lambda>cp. if cp = BeforePull then None else Some Canceled)\<rparr>"

definition worldStarted :: world where
  "worldStarted =
     \<lparr>PrepTask = \<lparr>Active = True, Success = False, Progress = ''Prep stage initialized'',
         Cancel = None, doneChan = Some 0\<rparr>,
      nextChan = 1, queries = 0, trace = [EvGo]\<rparr>"

text \<open>
  The environment checks at the head of \<^verbatim>\<open>handlePrep\<close> pass: the host directory exists,
  and the workspace exists or was created (or its \<^verbatim>\<open>os.Stat\<close> failed in another way
  than not-exist with a nil error, which cannot be).
\<close>

definition envChecksPass :: "preconds \<Rightarrow> bool" where
  "envChecksPass pc =
     (pcStatHost pc = None
      \<and> (if os_IsNotExist (pcStatWorkspace pc) then pcMkdir pc else pcStatWorkspace pc) = None)"

text \<open>
  No worker has completed without being observed: every closed channel was handed out
  earlier (so a fresh one is open), and an active task's completion signal has not fired.
\<close>

fun closeBelow :: "nat \<Rightarrow> event \<Rightarrow> bool" where
  "closeBelow n (EvClose c) = (c < n)"
| "closeBelow n ev = True"

definition noCompletion :: "world \<Rightarrow> bool" where
  "noCompletion w =
     (list_all (closeBelow (nextChan w)) (trace w)
      \<and> (if Active (PrepTask w) then \<not> doneFired w else True))"

text \<open>Outcomes of the environment checks, and a state in which the worker has finished.\<close>

definition pcOk :: preconds where
  "pcOk = \<lparr>pcStatHost = None, pcStatWorkspace = None, pcMkdir = None\<rparr>"

definition pcNoHost :: preconds where
  "pcNoHost = \<lparr>pcStatHost = Some ErrNotExist, pcStatWorkspace = None, pcMkdir = None\<rparr>"

definition pcNewWorkspace :: preconds where
  "pcNewWorkspace = \<lparr>pcStatHost = None, pcStatWorkspace = Some ErrNotExist, pcMkdir = None\<rparr>"

definition worldFinished :: world where
  "worldFinished =
     \<lparr>PrepTask = \<lparr>Active = True, Success = True, Progress = ''Prep completed successfully'',
         Cancel = Some CancelFunc, doneChan = Some 0\<rparr>,
      nextChan = 1, queries = 4, trace = [EvGo, EvCancel, EvClose 0]\<rparr>"

section \<open>Properties of package common\<close>

lemma removeAll_filter_notin:
  "removeAll x (filter (\<lambda>y. y \<notin> set rs) xs) = filter (\<lambda>y. y \<notin> set (rs @ [x])) xs"
  by (induction xs) auto

lemma RemoveDuplicates_loop_eq:
  "dom mp = set result \<Longrightarrow>
   RemoveDuplicates_loop xs result mp
     = result @ firstOccurrences (filter (\<lambda>y. y \<notin> set result) xs)"
proof (induction xs arbitrary: result mp)
  case Nil
  then show ?case by simp
next
  case (Cons item xs)
  show ?case
  proof (cases "mp item")
    case None
    then have notin: "item \<notin> set result" using Cons.prems by auto
    have d: "dom (mp(item \<mapsto> True)) = set (result @ [item])" using Cons.prems by auto
    have ih: "RemoveDuplicates_loop xs (result @ [item]) (mp(item \<mapsto> True))
        = (result @ [item]) @ firstOccurrences (filter (\<lambda>y. y \<notin> set (result @ [item])) xs)"
      by (rule Cons.IH [OF d])
    have "RemoveDuplicates_loop (item # xs) result mp
        = RemoveDuplicates_loop xs (result @ [item]) (mp(item \<mapsto> True))"
      using None by simp
    also note ih
    finally show ?thesis using notin by (simp add: removeAll_filter_notin)
  next
    case (Some present)
    then have "item \<in> set result" using Cons.prems by auto
    then show ?thesis using Some Cons.IH [OF Cons.prems] by simp
  qed
qed

lemma RemoveDuplicates_firstOccurrences: "RemoveDuplicates xs = firstOccurrences xs"
  using RemoveDuplicates_loop_eq [of Map.empty "[]" xs] by (simp add: RemoveDuplicates_def)

lemma set_firstOccurrences: "set (firstOccurrences xs) = set xs"
  by (induction xs rule: firstOccurrences.induct) auto

lemma distinct_firstOccurrences: "distinct (firstOccurrences xs)"
  by (induction xs rule: firstOccurrences.induct) (auto simp: set_firstOccurrences)

lemma firstOccurrences_distinct_id: "distinct xs \<Longrightarrow> firstOccurrences xs = xs"
  by (induction xs) auto

lemma count_list_distinct: "distinct xs \<Longrightarrow> x \<in> set xs \<Longrightarrow> count_list xs x = 1"
  by (induction xs) auto

lemma count_firstOccurrences:
  "x \<in> set xs \<Longrightarrow> count_list (firstOccurrences xs) x = 1"
  by (simp add: count_list_distinct distinct_firstOccurrences set_firstOccurrences)

lemma GetConfigMaps_unique_eq:
  "GetConfigMaps_unique xs mp res = RemoveDuplicates_loop xs res mp"
  by (induction xs arbitrary: mp res) (auto split: option.splits)

lemma fetch_log:
  "GetConfigMaps_fetch c us cms fetched = (r, lg) \<Longrightarrow>
     prefix fetched lg \<and> prefix lg (fetched @ us)"
proof (induction us arbitrary: cms fetched)
  case Nil
  then show ?case by simp
next
  case (Cons u us)
  show ?case
  proof (cases "GetConfigMap c (length fetched) u")
    case (Inl err)
    then show ?thesis using Cons.prems by auto
  next
    case (Inr existingCm)
    then have "GetConfigMaps_fetch c us (cms @ [existingCm]) (fetched @ [u]) = (r, lg)"
      using Cons.prems by simp
    from Cons.IH [OF this] show ?thesis by (auto dest: append_prefixD)
  qed
qed

lemma fetch_ok:
  "GetConfigMaps_fetch c us cms fetched = (Inr out, lg) \<Longrightarrow>
     lg = fetched @ us \<and> (\<exists>new. out = cms @ new \<and> length new = length us \<and>
       (\<forall>i < length us. c (length fetched + i) (us ! i) = Inr (new ! i)))"
proof (induction us arbitrary: cms fetched)
  case Nil
  then show ?case by simp
next
  case (Cons u us)
  show ?case
  proof (cases "GetConfigMap c (length fetched) u")
    case (Inl err)
    then show ?thesis using Cons.prems by auto
  next
    case (Inr existingCm)
    then have cu: "c (length fetched) u = Inr existingCm"
      by (auto simp: GetConfigMap_def split: sum.splits)
    from Inr have "GetConfigMaps_fetch c us (cms @ [existingCm]) (fetched @ [u]) = (Inr out, lg)"
      using Cons.prems by simp
    from Cons.IH [OF this] obtain new where
      lg: "lg = (fetched @ [u]) @ us" and out: "out = (cms @ [existingCm]) @ new"
      and len: "length new = length us"
      and all: "\<forall>i < length us. c (length (fetched @ [u]) + i) (us ! i) = Inr (new ! i)"
      by blast
    have "\<forall>i < length (u # us). c (length fetched + i) ((u # us) ! i) = Inr ((existingCm # new) ! i)"
    proof (intro allI impI)
      fix i assume "i < length (u # us)"
      then show "c (length fetched + i) ((u # us) ! i) = Inr ((existingCm # new) ! i)"
        using cu all by (cases i) auto
    qed
    then show ?thesis using lg out len
      by (intro conjI exI [of _ "existingCm # new"]) auto
  qed
qed

lemma fetch_err:
  "GetConfigMaps_fetch c us cms fetched = (Inl err, lg) \<Longrightarrow>
     lg \<noteq> [] \<and> (\<exists>e. c (length lg - 1) (last lg) = Inl e \<and> err = Wrapped ''failed to get configMap '' e)"
proof (induction us arbitrary: cms fetched)
  case Nil
  then show ?case by simp
next
  case (Cons u us)
  show ?case
  proof (cases "GetConfigMap c (length fetched) u")
    case (Inl e')
    then show ?thesis using Cons.prems
      by (auto simp: GetConfigMap_def split: sum.splits)
  next
    case (Inr existingCm)
    then have "GetConfigMaps_fetch c us (cms @ [existingCm]) (fetched @ [u]) = (Inl err, lg)"
      using Cons.prems by simp
    from Cons.IH [OF this] show ?thesis .
  qed
qed

text \<open>
  Claim C10, as amended. \<^verbatim>\<open>RemoveDuplicates\<close> returns the distinct elements of its input,
  each exactly once, in order of first occurrence, and is idempotent. \<^verbatim>\<open>GetConfigMaps\<close>
  asks the client for distinct references only, in first-occurrence order, each at most
  once, and stops at the first failed fetch: the log of fetches is a prefix of the
  de-duplicated input. When the call succeeds the log is the whole de-duplicated input
  (each distinct reference fetched exactly once) and the result holds the fetched
  configmaps in that order; when it fails, the last reference fetched is the one whose
  fetch failed.
\<close>

theorem GetConfigMaps_fetch_once:
  "RemoveDuplicates xs = firstOccurrences xs
   \<and> distinct (RemoveDuplicates xs)
   \<and> set (RemoveDuplicates xs) = set xs
   \<and> (\<forall>x \<in> set xs. count_list (RemoveDuplicates xs) x = 1)
   \<and> RemoveDuplicates (RemoveDuplicates xs) = RemoveDuplicates xs
   \<and> prefix (snd (GetConfigMaps c refs)) (RemoveDuplicates refs)
   \<and> distinct (snd (GetConfigMaps c refs))
   \<and> (\<forall>cms. fst (GetConfigMaps c refs) = Inr cms \<longrightarrow>
         snd (GetConfigMaps c refs) = RemoveDuplicates refs
         \<and> length cms = length (RemoveDuplicates refs)
         \<and> (\<forall>i < length cms. c i (RemoveDuplicates refs ! i) = Inr (cms ! i)))
   \<and> (\<forall>err. fst (GetConfigMaps c refs) = Inl err \<longrightarrow>
         snd (GetConfigMaps c refs) \<noteq> []
         \<and> (\<exists>e. c (length (snd (GetConfigMaps c refs)) - 1) (last (snd (GetConfigMaps c refs))) = Inl e
                \<and> err = Wrapped ''failed to get configMap '' e))"
proof -
  have u: "GetConfigMaps_unique refs Map.empty [] = RemoveDuplicates refs"
    by (simp add: GetConfigMaps_unique_eq RemoveDuplicates_def)
  obtain r lg where rl: "GetConfigMaps_fetch c (RemoveDuplicates refs) [] [] = (r, lg)"
    by (cases "GetConfigMaps_fetch c (RemoveDuplicates refs) [] []") auto
  then have g: "GetConfigMaps c refs = (r, lg)" by (simp add: GetConfigMaps_def u)
  have p: "prefix lg (RemoveDuplicates refs)" using fetch_log [OF rl] by simp
  have dr: "distinct (RemoveDuplicates refs)"
    by (simp add: RemoveDuplicates_firstOccurrences distinct_firstOccurrences)
  have dl: "distinct lg" using p dr by (auto simp: prefix_def)
  have ok: "\<forall>cms. r = Inr cms \<longrightarrow> lg = RemoveDuplicates refs
         \<and> length cms = length (RemoveDuplicates refs)
         \<and> (\<forall>i < length cms. c i (RemoveDuplicates refs ! i) = Inr (cms ! i))"
    using fetch_ok [of c "RemoveDuplicates refs" "[]" "[]" _ lg] rl by auto
  have er: "\<forall>err. r = Inl err \<longrightarrow> lg \<noteq> []
         \<and> (\<exists>e. c (length lg - 1) (last lg) = Inl e \<and> err = Wrapped ''failed to get configMap '' e)"
    using fetch_err [of c "RemoveDuplicates refs" "[]" "[]" _ lg] rl by auto
  have idem: "RemoveDuplicates (RemoveDuplicates xs) = RemoveDuplicates xs"
    by (simp add: RemoveDuplicates_firstOccurrences firstOccurrences_distinct_id
        distinct_firstOccurrences)
  show ?thesis
    using p dl ok er idem
    by (simp add: g RemoveDuplicates_firstOccurrences distinct_firstOccurrences
        set_firstOccurrences count_firstOccurrences)
qed

theorem GetConfigMaps_fetch_once_witness:
  "cmA \<in> set [cmA, cmB, cmA]
   \<and> fst (GetConfigMaps clientOk [cmA, cmB, cmA]) = Inr [''a'', ''b'']
   \<and> RemoveDuplicates [cmA, cmB, cmA] = [cmA, cmB]
   \<and> snd (GetConfigMaps clientOk [cmA, cmB, cmA]) = [cmA, cmB]
   \<and> count_list (RemoveDuplicates [cmA, cmB, cmA]) cmA = 1"
proof -
  note t = GetConfigMaps_fetch_once [of "[cmA, cmB, cmA]" clientOk "[cmA, cmB, cmA]"]
  have m: "cmA \<in> set [cmA, cmB, cmA]" by simp
  have f: "fst (GetConfigMaps clientOk [cmA, cmB, cmA]) = Inr [''a'', ''b'']"
    by (simp add: GetConfigMaps_def GetConfigMap_def clientOk_def cmA_def cmB_def)
  have r: "RemoveDuplicates [cmA, cmB, cmA] = [cmA, cmB]"
    by (simp add: RemoveDuplicates_def cmA_def cmB_def)
  have s: "snd (GetConfigMaps clientOk [cmA, cmB, cmA]) = RemoveDuplicates [cmA, cmB, cmA]"
    using t f by blast
  have c: "count_list (RemoveDuplicates [cmA, cmB, cmA]) cmA = 1"
    using t m by blast
  show ?thesis using m f r s c by simp
qed

text \<open>
  The claim as written says every distinct reference is fetched exactly once. With the
  input \<^verbatim>\<open>[a, b]\<close> and a client that fails on \<^verbatim>\<open>a\<close>, the call returns the error after
  the first fetch and \<^verbatim>\<open>b\<close> is never fetched.
\<close>

theorem GetConfigMaps_exactly_once_counterexample:
  "cmB \<in> set [cmA, cmB]
   \<and> fst (GetConfigMaps clientFailA [cmA, cmB])
       = Inl (Wrapped ''failed to get configMap '' (APIStatus StatusReasonNotFound))
   \<and> snd (GetConfigMaps clientFailA [cmA, cmB]) = [cmA]
   \<and> count_list (snd (GetConfigMaps clientFailA [cmA, cmB])) cmB = 0"
  by (simp add: GetConfigMaps_def GetConfigMap_def clientFailA_def cmA_def cmB_def)

section \<open>Properties of the retry policy\<close>

lemma OnError_loop_final:
  "(\<forall>j<i. \<exists>e. fn (calls + j) = Some e \<and> retriable e) \<Longrightarrow> i < n \<Longrightarrow>
   (fn (calls + i) = None \<or> (\<exists>e. fn (calls + i) = Some e \<and> \<not> retriable e)) \<Longrightarrow>
   OnError_loop n b retriable fn calls slept lastErr
     = (fn (calls + i), Suc (calls + i), slept @ map (delays b) [calls..<calls + i])"
proof (induction n arbitrary: i calls slept lastErr)
  case 0
  then show ?case by simp
next
  case (Suc n)
  show ?case
  proof (cases i)
    case 0
    then show ?thesis using Suc.prems(3) by auto
  next
    case (Suc i')
    from Suc.prems(1) Suc obtain e where e: "fn calls = Some e" "retriable e"
      by (metis add.right_neutral zero_less_Suc)
    have n0: "n \<noteq> 0" using Suc.prems(2) Suc by simp
    have a: "\<forall>j<i'. \<exists>e. fn (Suc calls + j) = Some e \<and> retriable e"
      using Suc.prems(1) Suc by (metis add_Suc_shift Suc_less_eq)
    have b: "i' < n" using Suc.prems(2) Suc by simp
    have c: "fn (Suc calls + i') = None \<or> (\<exists>e. fn (Suc calls + i') = Some e \<and> \<not> retriable e)"
      using Suc.prems(3) Suc by simp
    have "OnError_loop n b retriable fn (Suc calls) (slept @ [delays b calls]) (Some e)
        = (fn (Suc calls + i'), Suc (Suc calls + i'),
           (slept @ [delays b calls]) @ map (delays b) [Suc calls..<Suc calls + i'])"
      by (rule Suc.IH [OF a b c])
    then show ?thesis using e n0 Suc by (simp add: upt_rec [of calls])
  qed
qed

lemma OnError_loop_exhausted:
  "(\<forall>j<n. \<exists>e. fn (calls + j) = Some e \<and> retriable e) \<Longrightarrow> 0 < n \<Longrightarrow>
   OnError_loop n b retriable fn calls slept lastErr
     = (fn (calls + n - 1), calls + n, slept @ map (delays b) [calls..<calls + n - 1])"
proof (induction n arbitrary: calls slept lastErr)
  case 0
  then show ?case by simp
next
  case (Suc n)
  from Suc.prems(1) obtain e where e: "fn calls = Some e" "retriable e"
    by (metis add.right_neutral zero_less_Suc)
  show ?case
  proof (cases "n = 0")
    case True
    then show ?thesis using e by simp
  next
    case False
    have a: "\<forall>j<n. \<exists>e. fn (Suc calls + j) = Some e \<and> retriable e"
      using Suc.prems(1) by (metis add_Suc_shift Suc_less_eq)
    have "OnError_loop n b retriable fn (Suc calls) (slept @ [delays b calls]) (Some e)
        = (fn (Suc calls + n - 1), Suc calls + n,
           (slept @ [delays b calls]) @ map (delays b) [Suc calls..<Suc calls + n - 1])"
      using Suc.IH [OF a] False by simp
    then show ?thesis using e False by (simp add: upt_rec [of calls])
  qed
qed

text \<open>
  Claim C9. An error is retriable exactly when it is a write conflict, an internal server
  error, a service-unavailable condition or a connection-refused condition. With a
  schedule of \<open>n\<close> steps the operation is invoked again while its error is retriable and
  the schedule is not exhausted: if its first \<open>i\<close> outcomes (\<open>i < n\<close>) are retriable errors
  and outcome \<open>i\<close> is a success or a non-retriable error, the policy returns that outcome
  after exactly \<open>i + 1\<close> invocations, having slept the first \<open>i\<close> delays; if all \<open>n\<close>
  outcomes are retriable errors, it returns the last of them after exactly \<open>n\<close>
  invocations.
\<close>

theorem RetryOnConflictOrRetriable_policy:
  "(isConflictOrRetriable err \<longleftrightarrow>
      IsConflict err \<or> IsInternalError err \<or> IsServiceUnavailable err \<or> IsConnectionRefused err)
   \<and> (\<forall>i. i < nat (Steps b) \<longrightarrow>
        (\<forall>j<i. \<exists>e. fn j = Some e \<and> isConflictOrRetriable e) \<longrightarrow>
        (fn i = None \<or> (\<exists>e. fn i = Some e \<and> \<not> isConflictOrRetriable e)) \<longrightarrow>
        RetryOnConflictOrRetriable b fn = (fn i, Suc i, map (delays b) [0..<i]))
   \<and> (0 < Steps b \<longrightarrow>
        (\<forall>j < nat (Steps b). \<exists>e. fn j = Some e \<and> isConflictOrRetriable e) \<longrightarrow>
        RetryOnConflictOrRetriable b fn
          = (fn (nat (Steps b) - 1), nat (Steps b), map (delays b) [0..<nat (Steps b) - 1]))"
proof (intro conjI allI impI)
  show "isConflictOrRetriable err \<longleftrightarrow>
      IsConflict err \<or> IsInternalError err \<or> IsServiceUnavailable err \<or> IsConnectionRefused err"
    by (simp add: isConflictOrRetriable_def)
next
  fix i
  assume "i < nat (Steps b)" "\<forall>j<i. \<exists>e. fn j = Some e \<and> isConflictOrRetriable e"
    "fn i = None \<or> (\<exists>e. fn i = Some e \<and> \<not> isConflictOrRetriable e)"
  then show "RetryOnConflictOrRetriable b fn = (fn i, Suc i, map (delays b) [0..<i])"
    using OnError_loop_final [of i fn 0 isConflictOrRetriable "nat (Steps b)" b "[]" None]
    by (simp add: RetryOnConflictOrRetriable_def OnError_def)
next
  assume "0 < Steps b" "\<forall>j < nat (Steps b). \<exists>e. fn j = Some e \<and> isConflictOrRetriable e"
  then show "RetryOnConflictOrRetriable b fn
          = (fn (nat (Steps b) - 1), nat (Steps b), map (delays b) [0..<nat (Steps b) - 1])"
    using OnError_loop_exhausted [of "nat (Steps b)" fn 0 isConflictOrRetriable b "[]" None]
    by (simp add: RetryOnConflictOrRetriable_def OnError_def)
qed

lemma conflict_retriable: "isConflictOrRetriable (APIStatus StatusReasonConflict)"
  by (simp add: isConflictOrRetriable_def IsConflict_def)

theorem RetryOnConflictOrRetriable_policy_witness:
  "isConflictOrRetriable (APIStatus StatusReasonConflict)
   \<and> \<not> isConflictOrRetriable (APIStatus StatusReasonNotFound)
   \<and> (2::nat) < nat (Steps threeSteps)
   \<and> conflictTwiceThenOk 0 = Some (APIStatus StatusReasonConflict)
   \<and> conflictTwiceThenOk 1 = Some (APIStatus StatusReasonConflict)
   \<and> conflictTwiceThenOk 2 = None
   \<and> RetryOnConflictOrRetriable threeSteps conflictTwiceThenOk = (None, 3, [10, 20])"
proof -
  have s: "(2::nat) < nat (Steps threeSteps)" by (simp add: threeSteps_def)
  have r: "\<forall>j<2::nat. \<exists>e. conflictTwiceThenOk j = Some e \<and> isConflictOrRetriable e"
    by (simp add: conflictTwiceThenOk_def conflict_retriable)
  have f: "conflictTwiceThenOk 2 = None \<or>
      (\<exists>e. conflictTwiceThenOk 2 = Some e \<and> \<not> isConflictOrRetriable e)"
    by (simp add: conflictTwiceThenOk_def)
  have "RetryOnConflictOrRetriable threeSteps conflictTwiceThenOk
      = (conflictTwiceThenOk 2, Suc 2, map (delays threeSteps) [0..<2])"
    using RetryOnConflictOrRetriable_policy
      [of "APIStatus StatusReasonConflict" threeSteps conflictTwiceThenOk] s r f
    by blast
  moreover have "map (delays threeSteps) [0..<2] = [10, 20]"
    by (simp add: threeSteps_def upt_rec)
  ultimately show ?thesis
    using s
    by (simp add: conflictTwiceThenOk_def isConflictOrRetriable_def IsConflict_def
        IsInternalError_def IsServiceUnavailable_def IsConnectionRefused_def)
qed

section \<open>Properties of the job status poller\<close>

lemma attempt_Failed:
  "QueryJobStatus env (queries w) = (Some st, None) \<Longrightarrow> Status st = precache_Failed \<Longrightarrow>
   verifyPrecachingCompleteFunc_attempt env w
     = (Some (False, Some ErrFailed), (logEvent EvQueryJobStatus w)\<lparr>queries := Suc (queries w)\<rparr>)"
  by (simp add: verifyPrecachingCompleteFunc_attempt_def queryPrecachingStatus_def
      callQueryJobStatus_def)


lemma attempt_Active:
  "QueryJobStatus env (queries w) = (Some st, None) \<Longrightarrow> Status st = precache_Active \<Longrightarrow>
   verifyPrecachingCompleteFunc_attempt env w
     = (Some (False, None),
        (if Message st \<noteq> []
         then setProgress (''Precaching progress: '' @ Message st)
                ((logEvent EvQueryJobStatus w)\<lparr>queries := Suc (queries w)\<rparr>)
         else (logEvent EvQueryJobStatus w)\<lparr>queries := Suc (queries w)\<rparr>))"
  by (simp add: verifyPrecachingCompleteFunc_attempt_def queryPrecachingStatus_def
      callQueryJobStatus_def Let_def)

lemma attempt_Succeeded:
  "QueryJobStatus env (queries w) = (Some st, None) \<Longrightarrow> Status st = precache_Succeeded \<Longrightarrow>
   verifyPrecachingCompleteFunc_attempt env w
     = (Some (True, None),
        (if Message st \<noteq> []
         then setProgress (''Precaching progress: '' @ Message st)
                ((logEvent EvQueryJobStatus w)\<lparr>queries := Suc (queries w)\<rparr>)
         else (logEvent EvQueryJobStatus w)\<lparr>queries := Suc (queries w)\<rparr>))"
  by (simp add: verifyPrecachingCompleteFunc_attempt_def queryPrecachingStatus_def
      callQueryJobStatus_def Let_def)

lemma verify_first_attempt:
  "1 \<le> retries \<Longrightarrow> verifyPrecachingCompleteFunc_attempt env w = (Some r, w1) \<Longrightarrow>
   verifyPrecachingCompleteFunc env retries interval w = (r, w1)"
  by (simp add: verifyPrecachingCompleteFunc_def verifyPrecachingCompleteFunc_loop.simps [of _ _ _ 0])

text \<open>
  Claim C5. With a retry budget of at least one, if the first status query reports the
  Failed job state (a status in that state, returned without an error), the poller
  returns not-done with the failure sentinel; the only thing it has done is that one
  query: no sleep, no further query, and the task is untouched.
\<close>

theorem verifyPrecachingComplete_failed_first:
  "1 \<le> retries \<Longrightarrow> QueryJobStatus env (queries w) = (Some st, None) \<Longrightarrow>
   Status st = precache_Failed \<Longrightarrow>
   verifyPrecachingCompleteFunc env retries interval w
     = ((False, Some ErrFailed),
        w\<lparr>queries := Suc (queries w), trace := trace w @ [EvQueryJobStatus]\<rparr>)"
  using verify_first_attempt [OF _ attempt_Failed, of retries env w st interval]
  by (simp add: logEvent_def)

theorem verifyPrecachingComplete_failed_first_witness:
  "(1::int) \<le> 5
   \<and> QueryJobStatus envJobFailed (queries world0)
       = (Some \<lparr>Status = precache_Failed, Message = []\<rparr>, None)
   \<and> verifyPrecachingCompleteFunc envJobFailed 5 30000000000 world0
       = ((False, Some ErrFailed), world0\<lparr>queries := 1, trace := [EvQueryJobStatus]\<rparr>)"
  using verifyPrecachingComplete_failed_first
    [of 5 envJobFailed world0 "\<lparr>Status = precache_Failed, Message = []\<rparr>" 30000000000]
  by (simp add: envJobFailed_def envOk_def world0_def)





lemma verify_Active:
  "1 \<le> retries \<Longrightarrow> QueryJobStatus env (queries w) = (Some st, None) \<Longrightarrow>
   Status st = precache_Active \<Longrightarrow>
   verifyPrecachingCompleteFunc env retries interval w
     = ((False, None),
        w\<lparr>PrepTask := (PrepTask w)\<lparr>Progress :=
              (if Message st = [] then Progress (PrepTask w)
               else ''Precaching progress: '' @ Message st)\<rparr>,
          queries := Suc (queries w), trace := trace w @ [EvQueryJobStatus]\<rparr>)"
  using verify_first_attempt [OF _ attempt_Active, of retries env w st interval]
  by (simp add: logEvent_def setProgress_def)

lemma verify_Succeeded:
  "1 \<le> retries \<Longrightarrow> QueryJobStatus env (queries w) = (Some st, None) \<Longrightarrow>
   Status st = precache_Succeeded \<Longrightarrow>
   verifyPrecachingCompleteFunc env retries interval w
     = ((True, None),
        w\<lparr>PrepTask := (PrepTask w)\<lparr>Progress :=
              (if Message st = [] then Progress (PrepTask w)
               else ''Precaching progress: '' @ Message st)\<rparr>,
          queries := Suc (queries w), trace := trace w @ [EvQueryJobStatus]\<rparr>)"
  using verify_first_attempt [OF _ attempt_Succeeded, of retries env w st interval]
  by (simp add: logEvent_def setProgress_def)

lemma Poll_not_done:
  "ctx (PollWait i) = None \<Longrightarrow>
   condition (logEvent (EvPollWait interval) w) = ((False, None), w1) \<Longrightarrow>
   PollUntilContextCancel ctx interval condition i w
     = PollUntilContextCancel ctx interval condition (Suc i) w1"
  by (subst PollUntilContextCancel.simps) simp

lemma Poll_done:
  "ctx (PollWait i) = None \<Longrightarrow>
   condition (logEvent (EvPollWait interval) w) = ((True, None), w1) \<Longrightarrow>
   PollUntilContextCancel ctx interval condition i w = Some (None, w1)"
  by (subst PollUntilContextCancel.simps) simp

lemma Poll_error:
  "ctx (PollWait i) = None \<Longrightarrow>
   condition (logEvent (EvPollWait interval) w) = ((ok, Some err), w1) \<Longrightarrow>
   PollUntilContextCancel ctx interval condition i w = Some (Some err, w1)"
  by (subst PollUntilContextCancel.simps) simp

lemma Poll_canceled:
  "ctx (PollWait i) = Some err \<Longrightarrow>
   PollUntilContextCancel ctx interval condition i w = Some (Some err, w)"
  by (subst PollUntilContextCancel.simps) simp

text \<open>
  Claim C7. Let the next three status queries answer Active, Active, Succeeded, and let
  the retry budget be at least one (so in particular at least three). The poller,
  invoked three times as the outer polling loop does, returns not-done without error
  twice and then done: success comes with exactly the third query, and the trace gains
  three queries and no sleep. Each observation with a message, Active ones included,
  writes that message to the task's progress (an empty message leaves the progress as it
  was). Driven by the polling helper with a context that is not canceled at its first
  three waits, the same three invocations happen, each after one wait, and the helper
  returns success after the third query.
\<close>

theorem verifyPrecachingComplete_active_active_succeeded:
  fixes env :: env and retries interval :: int and w :: world
    and s1 s2 s3 :: precacheStatus and ctx :: "checkpoint \<Rightarrow> error option"
  assumes budget: "1 \<le> retries"
    and q1: "QueryJobStatus env (queries w) = (Some s1, None)" and a1: "Status s1 = precache_Active"
    and q2: "QueryJobStatus env (queries w + 1) = (Some s2, None)" and a2: "Status s2 = precache_Active"
    and q3: "QueryJobStatus env (queries w + 2) = (Some s3, None)" and a3: "Status s3 = precache_Succeeded"
  defines "poller \<equiv> verifyPrecachingCompleteFunc env retries interval"
  defines "w1 \<equiv> snd (poller w)"
  defines "w2 \<equiv> snd (poller w1)"
  defines "w3 \<equiv> snd (poller w2)"
  defines "shown \<equiv> (\<lambda>st old. if Message st = [] then old else ''Precaching progress: '' @ Message st)"
  shows "fst (poller w) = (False, None)
    \<and> fst (poller w1) = (False, None)
    \<and> fst (poller w2) = (True, None)
    \<and> Progress (PrepTask w1) = shown s1 (Progress (PrepTask w))
    \<and> Progress (PrepTask w2) = shown s2 (Progress (PrepTask w1))
    \<and> Progress (PrepTask w3) = shown s3 (Progress (PrepTask w2))
    \<and> queries w3 = queries w + 3
    \<and> trace w3 = trace w @ [EvQueryJobStatus, EvQueryJobStatus, EvQueryJobStatus]
    \<and> (ctx (PollWait 0) = None \<and> ctx (PollWait 1) = None \<and> ctx (PollWait 2) = None \<longrightarrow>
        PollUntilContextCancel ctx interval poller 0 w
          = Some (None, w3\<lparr>trace := trace w @ [EvPollWait interval, EvQueryJobStatus,
                  EvPollWait interval, EvQueryJobStatus,
                  EvPollWait interval, EvQueryJobStatus]\<rparr>))"
proof -
  have p1: "poller w = ((False, None),
        w\<lparr>PrepTask := (PrepTask w)\<lparr>Progress := shown s1 (Progress (PrepTask w))\<rparr>,
          queries := Suc (queries w), trace := trace w @ [EvQueryJobStatus]\<rparr>)"
    unfolding poller_def shown_def by (rule verify_Active [OF budget q1 a1])
  have e1: "w1 = w\<lparr>PrepTask := (PrepTask w)\<lparr>Progress := shown s1 (Progress (PrepTask w))\<rparr>,
          queries := Suc (queries w), trace := trace w @ [EvQueryJobStatus]\<rparr>"
    by (simp add: w1_def p1)
  have q2': "QueryJobStatus env (queries w1) = (Some s2, None)"
    using q2 by (simp add: e1)
  have p2: "poller w1 = ((False, None),
        w1\<lparr>PrepTask := (PrepTask w1)\<lparr>Progress := shown s2 (Progress (PrepTask w1))\<rparr>,
          queries := Suc (queries w1), trace := trace w1 @ [EvQueryJobStatus]\<rparr>)"
    unfolding poller_def shown_def by (rule verify_Active [OF budget q2' a2])
  have e2: "w2 = w1\<lparr>PrepTask := (PrepTask w1)\<lparr>Progress := shown s2 (Progress (PrepTask w1))\<rparr>,
          queries := Suc (queries w1), trace := trace w1 @ [EvQueryJobStatus]\<rparr>"
    by (simp add: w2_def p2)
  have q3': "QueryJobStatus env (queries w2) = (Some s3, None)"
    using q3 by (simp add: e2 e1)
  have p3: "poller w2 = ((True, None),
        w2\<lparr>PrepTask := (PrepTask w2)\<lparr>Progress := shown s3 (Progress (PrepTask w2))\<rparr>,
          queries := Suc (queries w2), trace := trace w2 @ [EvQueryJobStatus]\<rparr>)"
    unfolding poller_def shown_def by (rule verify_Succeeded [OF budget q3' a3])
  have e3: "w3 = w2\<lparr>PrepTask := (PrepTask w2)\<lparr>Progress := shown s3 (Progress (PrepTask w2))\<rparr>,
          queries := Suc (queries w2), trace := trace w2 @ [EvQueryJobStatus]\<rparr>"
    by (simp add: w3_def p3)
  have d1: "fst (poller w) = (False, None) \<and> fst (poller w1) = (False, None)
    \<and> fst (poller w2) = (True, None)"
    by (simp add: p1 p2 p3)
  have d2: "Progress (PrepTask w1) = shown s1 (Progress (PrepTask w))
    \<and> Progress (PrepTask w2) = shown s2 (Progress (PrepTask w1))
    \<and> Progress (PrepTask w3) = shown s3 (Progress (PrepTask w2))"
    using e1 e2 e3 by simp
  have d3: "queries w3 = queries w + 3
    \<and> trace w3 = trace w @ [EvQueryJobStatus, EvQueryJobStatus, EvQueryJobStatus]"
    by (simp add: e3 e2 e1)
  have polled: "PollUntilContextCancel ctx interval poller 0 w
          = Some (None, w3\<lparr>trace := trace w @ [EvPollWait interval, EvQueryJobStatus,
                  EvPollWait interval, EvQueryJobStatus,
                  EvPollWait interval, EvQueryJobStatus]\<rparr>)"
    if c: "ctx (PollWait 0) = None" "ctx (PollWait 1) = None" "ctx (PollWait 2) = None"
  proof -
    define v0 where "v0 = logEvent (EvPollWait interval) w"
    define u1 where "u1 = v0\<lparr>PrepTask := (PrepTask v0)\<lparr>Progress := shown s1 (Progress (PrepTask v0))\<rparr>,
          queries := Suc (queries v0), trace := trace v0 @ [EvQueryJobStatus]\<rparr>"
    define v1 where "v1 = logEvent (EvPollWait interval) u1"
    define u2 where "u2 = v1\<lparr>PrepTask := (PrepTask v1)\<lparr>Progress := shown s2 (Progress (PrepTask v1))\<rparr>,
          queries := Suc (queries v1), trace := trace v1 @ [EvQueryJobStatus]\<rparr>"
    define v2 where "v2 = logEvent (EvPollWait interval) u2"
    define u3 where "u3 = v2\<lparr>PrepTask := (PrepTask v2)\<lparr>Progress := shown s3 (Progress (PrepTask v2))\<rparr>,
          queries := Suc (queries v2), trace := trace v2 @ [EvQueryJobStatus]\<rparr>"
    have k0: "QueryJobStatus env (queries v0) = (Some s1, None)"
      using q1 by (simp add: v0_def logEvent_def)
    have k1: "QueryJobStatus env (queries v1) = (Some s2, None)"
      using q2 by (simp add: v1_def u1_def v0_def logEvent_def)
    have k2: "QueryJobStatus env (queries v2) = (Some s3, None)"
      using q3 by (simp add: v2_def u2_def v1_def u1_def v0_def logEvent_def)
    have r1: "poller v0 = ((False, None), u1)"
      unfolding poller_def shown_def u1_def by (rule verify_Active [OF budget k0 a1])
    have r2: "poller v1 = ((False, None), u2)"
      unfolding poller_def shown_def u2_def by (rule verify_Active [OF budget k1 a2])
    have r3: "poller v2 = ((True, None), u3)"
      unfolding poller_def shown_def u3_def by (rule verify_Succeeded [OF budget k2 a3])
    have s1: "PollUntilContextCancel ctx interval poller 0 w
        = PollUntilContextCancel ctx interval poller (Suc 0) u1"
      using Poll_not_done [of ctx 0 poller interval w u1] c(1) r1 by (simp add: v0_def)
    have c1: "ctx (PollWait (Suc 0)) = None" using c(2) by simp
    have s2: "PollUntilContextCancel ctx interval poller (Suc 0) u1
        = PollUntilContextCancel ctx interval poller (Suc (Suc 0)) u2"
      using Poll_not_done [of ctx "Suc 0" poller interval u1 u2] c1 r2 by (simp add: v1_def)
    have c2: "ctx (PollWait (Suc (Suc 0))) = None" using c(3) by (simp add: numeral_2_eq_2)
    have s3: "PollUntilContextCancel ctx interval poller (Suc (Suc 0)) u2 = Some (None, u3)"
      using Poll_done [of ctx "Suc (Suc 0)" poller interval u2 u3] c2 r3 by (simp add: v2_def)
    have "PollUntilContextCancel ctx interval poller 0 w = Some (None, u3)"
      using s1 s2 s3 by simp
    moreover have "u3 = w3\<lparr>trace := trace w @ [EvPollWait interval, EvQueryJobStatus,
                  EvPollWait interval, EvQueryJobStatus,
                  EvPollWait interval, EvQueryJobStatus]\<rparr>"
      by (simp add: u3_def v2_def u2_def v1_def u1_def v0_def e3 e2 e1 logEvent_def)
    ultimately show ?thesis by simp
  qed
  show ?thesis using d1 d2 d3 polled by blast
qed

theorem verifyPrecachingComplete_active_active_succeeded_witness:
  "(1::int) \<le> 5
   \<and> QueryJobStatus envOk (queries world0)
       = (Some \<lparr>Status = precache_Active, Message = ''1 of 2''\<rparr>, None)
   \<and> QueryJobStatus envOk (queries world0 + 1)
       = (Some \<lparr>Status = precache_Active, Message = ''1 of 2''\<rparr>, None)
   \<and> QueryJobStatus envOk (queries world0 + 2)
       = (Some \<lparr>Status = precache_Succeeded, Message = ''2 of 2''\<rparr>, None)
   \<and> ctxDone envOk (PollWait 0) = None \<and> ctxDone envOk (PollWait 1) = None
   \<and> ctxDone envOk (PollWait 2) = None
   \<and> verifyPrecachingCompleteFunc envOk 5 30000000000 world0
       = ((False, None),
          world0\<lparr>PrepTask := (PrepTask world0)\<lparr>Progress := ''Precaching progress: 1 of 2''\<rparr>,
            queries := 1, trace := [EvQueryJobStatus]\<rparr>)
   \<and> PollUntilContextCancel (ctxDone envOk) 30000000000
         (verifyPrecachingCompleteFunc envOk 5 30000000000) 0 world0
       = Some (None,
          world0\<lparr>PrepTask := (PrepTask world0)\<lparr>Progress := ''Precaching progress: 2 of 2''\<rparr>,
            queries := 3,
            trace := [EvPollWait 30000000000, EvQueryJobStatus,
                      EvPollWait 30000000000, EvQueryJobStatus,
                      EvPollWait 30000000000, EvQueryJobStatus]\<rparr>)"
proof -
  let ?a = "\<lparr>Status = precache_Active, Message = ''1 of 2''\<rparr>"
  let ?s = "\<lparr>Status = precache_Succeeded, Message = ''2 of 2''\<rparr>"
  have b: "(1::int) \<le> 5" by simp
  have q1: "QueryJobStatus envOk (queries world0) = (Some ?a, None)"
    and q2: "QueryJobStatus envOk (queries world0 + 1) = (Some ?a, None)"
    and q3: "QueryJobStatus envOk (queries world0 + 2) = (Some ?s, None)"
    by (simp_all add: envOk_def world0_def)
  have c: "ctxDone envOk (PollWait 0) = None \<and> ctxDone envOk (PollWait 1) = None
      \<and> ctxDone envOk (PollWait 2) = None"
    by (simp add: envOk_def)
  define W1 where "W1 = world0\<lparr>PrepTask := (PrepTask world0)\<lparr>Progress := ''Precaching progress: 1 of 2''\<rparr>,
            queries := 1, trace := [EvQueryJobStatus]\<rparr>"
  define W2 where "W2 = world0\<lparr>PrepTask := (PrepTask world0)\<lparr>Progress := ''Precaching progress: 1 of 2''\<rparr>,
            queries := 2, trace := [EvQueryJobStatus, EvQueryJobStatus]\<rparr>"
  define W3 where "W3 = world0\<lparr>PrepTask := (PrepTask world0)\<lparr>Progress := ''Precaching progress: 2 of 2''\<rparr>,
            queries := 3, trace := [EvQueryJobStatus, EvQueryJobStatus, EvQueryJobStatus]\<rparr>"
  have v1: "verifyPrecachingCompleteFunc envOk 5 30000000000 world0 = ((False, None), W1)"
    unfolding W1_def
    by (simp add: verifyPrecachingCompleteFunc_def
        verifyPrecachingCompleteFunc_loop.simps [of _ _ _ 0]
        verifyPrecachingCompleteFunc_attempt_def queryPrecachingStatus_def
        callQueryJobStatus_def envOk_def world0_def logEvent_def setProgress_def)
  have v2: "verifyPrecachingCompleteFunc envOk 5 30000000000 W1 = ((False, None), W2)"
    unfolding W1_def W2_def
    by (simp add: verifyPrecachingCompleteFunc_def
        verifyPrecachingCompleteFunc_loop.simps [of _ _ _ 0]
        verifyPrecachingCompleteFunc_attempt_def queryPrecachingStatus_def
        callQueryJobStatus_def envOk_def world0_def logEvent_def setProgress_def)
  have v3: "verifyPrecachingCompleteFunc envOk 5 30000000000 W2 = ((True, None), W3)"
    unfolding W2_def W3_def
    by (simp add: verifyPrecachingCompleteFunc_def
        verifyPrecachingCompleteFunc_loop.simps [of _ _ _ 0]
        verifyPrecachingCompleteFunc_attempt_def queryPrecachingStatus_def
        callQueryJobStatus_def envOk_def world0_def logEvent_def setProgress_def)
  have "PollUntilContextCancel (ctxDone envOk) 30000000000
         (verifyPrecachingCompleteFunc envOk 5 30000000000) 0 world0
       = Some (None, W3\<lparr>trace := trace world0 @ [EvPollWait 30000000000, EvQueryJobStatus,
                      EvPollWait 30000000000, EvQueryJobStatus,
                      EvPollWait 30000000000, EvQueryJobStatus]\<rparr>)"
    using verifyPrecachingComplete_active_active_succeeded
      [OF b q1 _ q2 _ q3, where ctx = "ctxDone envOk" and interval = 30000000000] c
    by (simp add: v1 v2 v3)
  then show ?thesis
    using c q1 q2 q3 v1 by (simp add: W1_def W3_def world0_def)
qed

section \<open>Properties of the steps of the worker pipeline\<close>

lemma validateSeedOcpVersion_world:
  "snd (validateSeedOcpVersion env seed w) = logEvent EvGetClusterVersion w"
  by (simp add: validateSeedOcpVersion_def Let_def split: sum.splits)

lemma validateSeedOcpVersion_result:
  "fst (validateSeedOcpVersion env seed w) = fst (validateSeedOcpVersion env seed w')"
  by (simp add: validateSeedOcpVersion_def Let_def split: sum.splits)

lemma validateSeedOcpVersion_ok_iff:
  "getClusterVersion env = Inr targetOCP \<Longrightarrow>
   fst (validateSeedOcpVersion env seed w) = None \<longleftrightarrow>
     (\<exists>t s. semverNewVersion env targetOCP = Inr t \<and> semverNewVersion env seed = Inr s
        \<and> 0 < semverCompare env s t)"
  by (auto simp: validateSeedOcpVersion_def Let_def split: sum.splits)

lemma validateSeedOcpVersion_rejects:
  "getClusterVersion env = Inr targetOCP \<Longrightarrow> semverNewVersion env targetOCP = Inr t \<Longrightarrow>
   semverNewVersion env seed = Inr s \<Longrightarrow> semverCompare env s t \<le> 0 \<Longrightarrow>
   fst (validateSeedOcpVersion env seed w)
     = Some (ErrorString (''seed OCP version ('' @ seed
          @ '') must be higher than current OCP version ('' @ targetOCP @ '')''))"
  by (simp add: validateSeedOcpVersion_def Let_def)

lemma prepStageWorker_gate_fails:
  assumes "fst (validateSeedOcpVersion env (Version ibu) w') = Some err"
  shows "prepStageWorker env ibu w
    = Some (Some (Wrapped ''encountered error while running prep-stage worker goroutine: ''
                   (Wrapped ''failed to validate seed image OCP version in spec: '' err)),
            w\<lparr>PrepTask := (PrepTask w)\<lparr>Cancel := Some CancelFunc,
                  Progress := ''Prep failed with error: ''
                    @ ''failed to validate seed image OCP version in spec: '' @ errorMessage err\<rparr>,
              trace := trace w @ [EvGetClusterVersion, EvCancel]\<rparr>)"
proof -
  let ?w0 = "w\<lparr>PrepTask := (PrepTask w)\<lparr>Cancel := Some CancelFunc\<rparr>\<rparr>"
  have "fst (validateSeedOcpVersion env (Version ibu) ?w0) = Some err"
    using assms validateSeedOcpVersion_result by metis
  then have "validateSeedOcpVersion env (Version ibu) ?w0 = (Some err, logEvent EvGetClusterVersion ?w0)"
    using validateSeedOcpVersion_world [of env "Version ibu" ?w0] by (metis prod.collapse)
  then show ?thesis
    by (simp add: prepStageWorker_def prepStageWorker_steps_def logEvent_def setProgress_def)
qed

text \<open>
  Claim C3. Given the current version string of the cluster, the gate succeeds exactly
  when both strings parse as semantic versions and the seed version compares strictly
  greater than the current one. When both parse and the seed version is equal or lesser,
  the gate's error names both versions. Whenever the gate fails, the pipeline fails at
  its first step: the worker returns that error, wrapped, and the only collaborator call
  it has made is the fetch of the cluster version, so no image pull was attempted.
\<close>

theorem validateSeedOcpVersion_forward_only:
  assumes "getClusterVersion env = Inr targetOCP"
  shows "(fst (validateSeedOcpVersion env seed w) = None \<longleftrightarrow>
           (\<exists>t s. semverNewVersion env targetOCP = Inr t \<and> semverNewVersion env seed = Inr s
              \<and> 0 < semverCompare env s t))
    \<and> (\<forall>t s. semverNewVersion env targetOCP = Inr t \<and> semverNewVersion env seed = Inr s
              \<and> semverCompare env s t \<le> 0 \<longrightarrow>
          fst (validateSeedOcpVersion env seed w)
            = Some (ErrorString (''seed OCP version ('' @ seed
                 @ '') must be higher than current OCP version ('' @ targetOCP @ '')'')))
    \<and> (\<forall>err. Version ibu = seed \<and> fst (validateSeedOcpVersion env seed w) = Some err \<longrightarrow>
          prepStageWorker env ibu w
            = Some (Some (Wrapped ''encountered error while running prep-stage worker goroutine: ''
                       (Wrapped ''failed to validate seed image OCP version in spec: '' err)),
                    w\<lparr>PrepTask := (PrepTask w)\<lparr>Cancel := Some CancelFunc,
                          Progress := ''Prep failed with error: ''
                            @ ''failed to validate seed image OCP version in spec: ''
                            @ errorMessage err\<rparr>,
                      trace := trace w @ [EvGetClusterVersion, EvCancel]\<rparr>))"
  using validateSeedOcpVersion_ok_iff [OF assms, of seed w]
    validateSeedOcpVersion_rejects [OF assms, of _ seed _ w]
    prepStageWorker_gate_fails [of env ibu w _ w]
  by blast

theorem validateSeedOcpVersion_forward_only_witness:
  "getClusterVersion envOk = Inr ''4.13.0''
   \<and> semverNewVersion envOk ''4.13.0''
       = Inr \<lparr>Major = 4, Minor = 13, Patch = 0, PreRelease = [], Metadata = []\<rparr>
   \<and> semverNewVersion envOk ''4.12.1''
       = Inr \<lparr>Major = 4, Minor = 12, Patch = 1, PreRelease = [], Metadata = []\<rparr>
   \<and> semverCompare envOk
        \<lparr>Major = 4, Minor = 12, Patch = 1, PreRelease = [], Metadata = []\<rparr>
        \<lparr>Major = 4, Minor = 13, Patch = 0, PreRelease = [], Metadata = []\<rparr> \<le> 0
   \<and> fst (validateSeedOcpVersion envOk ''4.14.0'' world0) = None
   \<and> fst (validateSeedOcpVersion envOk ''4.12.1'' world0)
       = Some (ErrorString
           ''seed OCP version (4.12.1) must be higher than current OCP version (4.13.0)'')
   \<and> map_option fst (prepStageWorker envOk ibuOld world0)
       = Some (Some (Wrapped ''encountered error while running prep-stage worker goroutine: ''
           (Wrapped ''failed to validate seed image OCP version in spec: ''
             (ErrorString
               ''seed OCP version (4.12.1) must be higher than current OCP version (4.13.0)''))))
   \<and> map_option (trace \<circ> snd) (prepStageWorker envOk ibuOld world0)
       = Some [EvGetClusterVersion, EvCancel]"
proof -
  have g: "getClusterVersion envOk = Inr ''4.13.0''" by (simp add: envOk_def)
  have p: "semverNewVersion envOk ''4.13.0''
      = Inr \<lparr>Major = 4, Minor = 13, Patch = 0, PreRelease = [], Metadata = []\<rparr>"
    "semverNewVersion envOk ''4.12.1''
      = Inr \<lparr>Major = 4, Minor = 12, Patch = 1, PreRelease = [], Metadata = []\<rparr>"
    "semverNewVersion envOk ''4.14.0''
      = Inr \<lparr>Major = 4, Minor = 14, Patch = 0, PreRelease = [], Metadata = []\<rparr>"
    by (simp_all add: envOk_def parseExample_def)
  have c: "semverCompare envOk
        \<lparr>Major = 4, Minor = 12, Patch = 1, PreRelease = [], Metadata = []\<rparr>
        \<lparr>Major = 4, Minor = 13, Patch = 0, PreRelease = [], Metadata = []\<rparr> \<le> 0"
    "0 < semverCompare envOk
        \<lparr>Major = 4, Minor = 14, Patch = 0, PreRelease = [], Metadata = []\<rparr>
        \<lparr>Major = 4, Minor = 13, Patch = 0, PreRelease = [], Metadata = []\<rparr>"
    by (simp_all add: envOk_def compareExample_def)
  have v: "Version ibuOld = ''4.12.1''" by (simp add: ibuOld_def)
  note t1 = validateSeedOcpVersion_forward_only [OF g, of "''4.14.0''" world0 ibuOld]
  note t2 = validateSeedOcpVersion_forward_only [OF g, of "''4.12.1''" world0 ibuOld]
  have ok: "fst (validateSeedOcpVersion envOk ''4.14.0'' world0) = None"
    using t1 p c by blast
  have rej: "fst (validateSeedOcpVersion envOk ''4.12.1'' world0)
       = Some (ErrorString (''seed OCP version ('' @ ''4.12.1''
                 @ '') must be higher than current OCP version ('' @ ''4.13.0'' @ '')''))"
    using t2 p c by blast
  have run: "prepStageWorker envOk ibuOld world0
            = Some (Some (Wrapped ''encountered error while running prep-stage worker goroutine: ''
                       (Wrapped ''failed to validate seed image OCP version in spec: ''
                         (ErrorString (''seed OCP version ('' @ ''4.12.1''
                 @ '') must be higher than current OCP version ('' @ ''4.13.0'' @ '')'')))),
                    world0\<lparr>PrepTask := (PrepTask world0)\<lparr>Cancel := Some CancelFunc,
                          Progress := ''Prep failed with error: ''
                            @ ''failed to validate seed image OCP version in spec: ''
                            @ errorMessage (ErrorString (''seed OCP version ('' @ ''4.12.1''
                 @ '') must be higher than current OCP version ('' @ ''4.13.0'' @ '')''))\<rparr>,
                      trace := trace world0 @ [EvGetClusterVersion, EvCancel]\<rparr>)"
    using t2 v rej by blast
  show ?thesis
    using g p c ok rej unfolding run by (simp add: world0_def)
qed

lemma newEvents_append: "trace w2 = trace w @ evs \<Longrightarrow> newEvents w w2 = evs"
  by (simp add: newEvents_def)

lemma checkSeedImageCompatibility_world:
  "snd (checkSeedImageCompatibility env ref w) = logEvent (EvPodmanInspect ref) w"
  by (simp add: checkSeedImageCompatibility_def Let_def split: sum.splits option.splits)

lemma checkSeedImageCompatibility_result:
  "fst (checkSeedImageCompatibility env ref w) = fst (checkSeedImageCompatibility env ref w')"
  by (simp add: checkSeedImageCompatibility_def Let_def split: sum.splits option.splits)

lemma length_one_iff: "length xs = Suc 0 \<longleftrightarrow> (\<exists>x. xs = [x])"
  by (cases xs) auto

lemma checkSeedImageCompatibility_ok_iff:
  "fst (checkSeedImageCompatibility env ref w) = None \<longleftrightarrow>
     (\<exists>raw labels. podmanInspect env = Inr raw \<and> raw \<noteq> []
        \<and> jsonUnmarshal env raw = Inr [labels]
        \<and> labels (SeedFormatOCILabel env) = Some (fmtD (SeedFormatVersion env)))"
  by (auto simp: checkSeedImageCompatibility_def Let_def length_one_iff
      split: sum.splits option.splits)

lemma checkSeedImageCompatibility_count:
  "podmanInspect env = Inr raw \<Longrightarrow> raw \<noteq> [] \<Longrightarrow> jsonUnmarshal env raw = Inr inspect \<Longrightarrow>
   length inspect \<noteq> 1 \<Longrightarrow>
   fst (checkSeedImageCompatibility env ref w)
     = Some (ErrorString (''expected 1 image inspect result, got '' @ fmtD (int (length inspect))))"
  by (simp add: checkSeedImageCompatibility_def Let_def)

lemma checkSeedImageCompatibility_absent:
  "podmanInspect env = Inr raw \<Longrightarrow> raw \<noteq> [] \<Longrightarrow> jsonUnmarshal env raw = Inr [labels] \<Longrightarrow>
   labels (SeedFormatOCILabel env) = None \<Longrightarrow>
   fst (checkSeedImageCompatibility env ref w)
     = Some (ErrorString (''seed image '' @ ref @ '' is missing the '' @ SeedFormatOCILabel env
          @ '' label, please build a new image using the latest version of the lca-cli''))"
  by (simp add: checkSeedImageCompatibility_def Let_def)

lemma checkSeedImageCompatibility_mismatch:
  "podmanInspect env = Inr raw \<Longrightarrow> raw \<noteq> [] \<Longrightarrow> jsonUnmarshal env raw = Inr [labels] \<Longrightarrow>
   labels (SeedFormatOCILabel env) = Some v \<Longrightarrow> v \<noteq> fmtD (SeedFormatVersion env) \<Longrightarrow>
   fst (checkSeedImageCompatibility env ref w)
     = Some (ErrorString (''seed image format version mismatch: expected ''
          @ fmtD (SeedFormatVersion env) @ '', got '' @ v))"
  by (simp add: checkSeedImageCompatibility_def Let_def)

lemma getSeedImage_pull_result:
  "fst (getSeedImage_pull env ibu f w) = fst (getSeedImage_pull env ibu f w')"
proof -
  have "fst (checkSeedImageCompatibility env (Image ibu) (logEvent (EvPodmanPull f (Image ibu)) w))
      = fst (checkSeedImageCompatibility env (Image ibu) (logEvent (EvPodmanPull f (Image ibu)) w'))"
    by (rule checkSeedImageCompatibility_result)
  then show ?thesis
    by (auto simp: getSeedImage_pull_def Let_def split: sum.splits prod.splits option.splits)
qed

lemma getSeedImage_pull_events:
  "\<exists>evs. snd (getSeedImage_pull env ibu f w) = w\<lparr>trace := trace w @ evs\<rparr>
     \<and> (\<forall>e \<in> set evs. stepIndex e = 2 \<or> stepIndex e = 3)"
proof (cases "podmanPull env")
  case (Inl err)
  then show ?thesis
    by (intro exI [of _ "[EvPodmanPull f (Image ibu)]"])
       (simp add: getSeedImage_pull_def logEvent_def)
next
  case (Inr out)
  have "snd (getSeedImage_pull env ibu f w)
      = snd (checkSeedImageCompatibility env (Image ibu) (logEvent (EvPodmanPull f (Image ibu)) w))"
    using Inr by (simp add: getSeedImage_pull_def Let_def split: prod.splits option.splits)
  then show ?thesis
    by (intro exI [of _ "[EvPodmanPull f (Image ibu), EvPodmanInspect (Image ibu)]"])
       (simp add: checkSeedImageCompatibility_world logEvent_def)
qed

lemma getSeedImage_pull_check_fails:
  "fst (checkSeedImageCompatibility env (Image ibu) w') = Some err \<Longrightarrow>
   fst (getSeedImage_pull env ibu f w) \<noteq> None
   \<and> (\<forall>out. podmanPull env = Inr out \<longrightarrow>
        fst (getSeedImage_pull env ibu f w)
          = Some (Wrapped ''checking seed image compatibility: '' err))"
proof -
  assume a: "fst (checkSeedImageCompatibility env (Image ibu) w') = Some err"
  have "fst (checkSeedImageCompatibility env (Image ibu) (logEvent (EvPodmanPull f (Image ibu)) w))
      = Some err"
    using a checkSeedImageCompatibility_result by metis
  then show ?thesis
    by (auto simp: getSeedImage_pull_def Let_def split: sum.splits prod.splits option.splits)
qed

lemma getSeedImage_result:
  "fst (getSeedImage env ibu w) = fst (getSeedImage env ibu w')"
proof (cases "PullSecretRef ibu")
  case None
  then show ?thesis using getSeedImage_pull_result by (simp add: getSeedImage_def)
next
  case (Some name)
  let ?f = "filepathJoin env (IBUWorkspacePath env) ''seed-pull-secret''"
  let ?v = "\<lambda>w. logEvent (EvWriteFile (PathOutsideChroot env ?f)) (logEvent (EvGetSecretData name) w)"
  have "fst (getSeedImage_pull env ibu ?f (?v w)) = fst (getSeedImage_pull env ibu ?f (?v w'))"
    by (rule getSeedImage_pull_result)
  then show ?thesis using Some
    by (auto simp: getSeedImage_def Let_def split: sum.splits prod.splits option.splits)
qed

lemma getSeedImage_events:
  "\<exists>evs. snd (getSeedImage env ibu w) = w\<lparr>trace := trace w @ evs\<rparr>
     \<and> (\<forall>e \<in> set evs. stepIndex e = 2 \<or> stepIndex e = 3)"
proof (cases "PullSecretRef ibu")
  case None
  then show ?thesis using getSeedImage_pull_events by (simp add: getSeedImage_def)
next
  case (Some name)
  let ?f = "filepathJoin env (IBUWorkspacePath env) ''seed-pull-secret''"
  let ?p = "PathOutsideChroot env ?f"
  let ?w1 = "logEvent (EvGetSecretData name) w"
  let ?w2 = "logEvent (EvWriteFile ?p) ?w1"
  show ?thesis
  proof (cases "GetSecretData env")
    case (Inl err)
    then show ?thesis using Some
      by (intro exI [of _ "[EvGetSecretData name]"]) (simp add: getSeedImage_def logEvent_def)
  next
    case (Inr pullSecret)
    show ?thesis
    proof (cases "WriteFile env")
      case (Some err)
      then show ?thesis using Inr \<open>PullSecretRef ibu = Some name\<close>
        by (intro exI [of _ "[EvGetSecretData name, EvWriteFile ?p]"])
           (simp add: getSeedImage_def logEvent_def Let_def)
    next
      case None
      obtain evs where evs: "snd (getSeedImage_pull env ibu ?f ?w2) = ?w2\<lparr>trace := trace ?w2 @ evs\<rparr>"
        "\<forall>e \<in> set evs. stepIndex e = 2 \<or> stepIndex e = 3"
        using getSeedImage_pull_events by blast
      have "snd (getSeedImage env ibu w) = logEvent (EvRemove ?p) (snd (getSeedImage_pull env ibu ?f ?w2))"
        using None Inr \<open>PullSecretRef ibu = Some name\<close>
        by (simp add: getSeedImage_def Let_def split: prod.splits)
      then show ?thesis using evs
        by (intro exI [of _ "[EvGetSecretData name, EvWriteFile ?p] @ evs @ [EvRemove ?p]"])
           (simp add: logEvent_def)
    qed
  qed
qed

lemma getSeedImage_check_fails:
  assumes "fst (checkSeedImageCompatibility env (Image ibu) w') = Some err"
  shows "fst (getSeedImage env ibu w) \<noteq> None"
proof (cases "PullSecretRef ibu")
  case None
  then show ?thesis using getSeedImage_pull_check_fails [OF assms] by (simp add: getSeedImage_def)
next
  case (Some name)
  let ?f = "filepathJoin env (IBUWorkspacePath env) ''seed-pull-secret''"
  let ?w2 = "logEvent (EvWriteFile (PathOutsideChroot env ?f)) (logEvent (EvGetSecretData name) w)"
  have "fst (getSeedImage_pull env ibu ?f ?w2) \<noteq> None"
    using getSeedImage_pull_check_fails [OF assms] by blast
  then show ?thesis using Some
    by (auto simp: getSeedImage_def Let_def split: sum.splits prod.splits option.splits)
qed

lemma getSeedImage_check_fails_wrapped:
  assumes "fst (checkSeedImageCompatibility env (Image ibu) w') = Some err"
    and "PullSecretRef ibu = None" and "podmanPull env = Inr out"
  shows "fst (getSeedImage env ibu w) = Some (Wrapped ''checking seed image compatibility: '' err)"
  using getSeedImage_pull_check_fails [OF assms(1)] assms(2,3) by (simp add: getSeedImage_def)

section \<open>Properties of the worker pipeline\<close>

lemma advanced_refl: "advanced k w w"
  by (simp add: advanced_def)

lemma advanced_trans: "advanced k w w1 \<Longrightarrow> advanced k w1 w2 \<Longrightarrow> advanced k w w2"
  by (auto simp: advanced_def)

lemma workerEvent_mono: "k \<le> k' \<Longrightarrow> workerEvent k ev \<Longrightarrow> workerEvent k' ev"
  by (auto simp: workerEvent_def)

lemma advanced_mono: "k \<le> k' \<Longrightarrow> advanced k w w2 \<Longrightarrow> advanced k' w w2"
  by (auto simp: advanced_def list_all_iff intro: workerEvent_mono)

lemma advanced_setProgress: "advanced k w (setProgress msg w)"
  by (simp add: advanced_def setProgress_def)

lemma advanced_setProgress': "advanced k w w1 \<Longrightarrow> advanced k w (setProgress msg w1)"
  by (auto simp: advanced_def setProgress_def)

lemma advanced_logEvent: "workerEvent k ev \<Longrightarrow> advanced k w w1 \<Longrightarrow> advanced k w (logEvent ev w1)"
  by (auto simp: advanced_def logEvent_def)

lemma advanced_events:
  "(\<forall>ev \<in> set evs. workerEvent k ev) \<Longrightarrow> advanced k w (w\<lparr>trace := trace w @ evs\<rparr>)"
  by (auto simp: advanced_def list_all_iff)

lemma stopped_mono: "k \<le> k' \<Longrightarrow> stopped k w res \<Longrightarrow> stopped k' w res"
  by (auto simp: stopped_def intro: advanced_mono)

lemma stopped_after: "advanced k w w1 \<Longrightarrow> stopped k w1 res \<Longrightarrow> stopped k w res"
  by (auto simp: stopped_def intro: advanced_trans)

lemma stoppedI: "res = Some (Some e, w2) \<Longrightarrow> advanced k w w2 \<Longrightarrow> stopped k w res"
  by (auto simp: stopped_def)

lemma advanced_newEvents:
  "0 < k \<Longrightarrow> advanced k w w2 \<Longrightarrow> stepsBelow k (newEvents w w2)"
  by (fastforce simp: advanced_def stepsBelow_def newEvents_def list_all_iff workerEvent_def)

lemma advanced_no_close:
  "advanced k w w2 \<Longrightarrow> count_list (trace w2) (EvClose c) = count_list (trace w) (EvClose c)"
proof -
  assume "advanced k w w2"
  then obtain evs where e: "trace w2 = trace w @ evs" "list_all (workerEvent k) evs"
    by (auto simp: advanced_def)
  have "EvClose c \<notin> set evs" using e(2) by (auto simp: list_all_iff workerEvent_def)
  then show ?thesis using e(1) by simp
qed

lemma advanced_validate:
  "advanced 2 w (snd (validateSeedOcpVersion env seed w))"
  unfolding validateSeedOcpVersion_world
  by (rule advanced_logEvent) (simp_all add: workerEvent_def advanced_refl)

lemma advanced_getSeedImage: "advanced 4 w (snd (getSeedImage env ibu w))"
proof -
  obtain evs where e: "snd (getSeedImage env ibu w) = w\<lparr>trace := trace w @ evs\<rparr>"
    "\<forall>e \<in> set evs. stepIndex e = 2 \<or> stepIndex e = 3"
    using getSeedImage_events by blast
  have "\<forall>ev \<in> set evs. workerEvent 4 ev" using e(2) by (auto simp: workerEvent_def)
  then show ?thesis unfolding e(1) by (rule advanced_events)
qed

lemma SetupStateroot_result: "fst (SetupStateroot env w) = fst (SetupStateroot env w')"
  by (simp add: SetupStateroot_def Let_def split: option.splits)

lemma SetupStateroot_events:
  "\<exists>evs. snd (SetupStateroot env w) = w\<lparr>trace := trace w @ evs\<rparr>
     \<and> (\<forall>e \<in> set evs. stepIndex e = 4)"
proof -
  let ?all = "[EvPrepSetupStateroot, EvRpmOstreeCleanup, EvWriteIBUAutoRollbackConfigFile,
      EvBackupKubeconfigCrypto]"
  have "\<exists>n. snd (SetupStateroot env w) = w\<lparr>trace := trace w @ take n ?all\<rparr>"
  proof (cases "prepSetupStateroot env")
    case (Some e)
    then show ?thesis by (intro exI [of _ 1]) (simp add: SetupStateroot_def logEvent_def)
  next
    case n1: None
    show ?thesis
    proof (cases "RpmOstreeCleanup env")
      case (Some e)
      then show ?thesis using n1
        by (intro exI [of _ 2]) (simp add: SetupStateroot_def logEvent_def numeral_2_eq_2)
    next
      case n2: None
      show ?thesis
      proof (cases "WriteIBUAutoRollbackConfigFile env")
        case (Some e)
        then show ?thesis using n1 n2
          by (intro exI [of _ 3]) (simp add: SetupStateroot_def logEvent_def numeral_3_eq_3)
      next
        case n3: None
        then show ?thesis using n1 n2
          by (intro exI [of _ 4])
             (simp add: SetupStateroot_def logEvent_def Let_def split: option.splits)
      qed
    qed
  qed
  then obtain n where n: "snd (SetupStateroot env w) = w\<lparr>trace := trace w @ take n ?all\<rparr>" ..
  have "\<forall>e \<in> set (take n ?all). stepIndex e = 4"
    using set_take_subset [of n ?all] by auto
  then show ?thesis using n by blast
qed

lemma advanced_SetupStateroot: "advanced 5 w (snd (SetupStateroot env w))"
proof -
  obtain evs where e: "snd (SetupStateroot env w) = w\<lparr>trace := trace w @ evs\<rparr>"
    "\<forall>e \<in> set evs. stepIndex e = 4"
    using SetupStateroot_events by blast
  have "\<forall>ev \<in> set evs. workerEvent 5 ev" using e(2) by (auto simp: workerEvent_def)
  then show ?thesis unfolding e(1) by (rule advanced_events)
qed

lemma launchPrecaching_result:
  "fst (launchPrecaching env f ibu w) = fst (launchPrecaching env f ibu w')"
  by (simp add: launchPrecaching_def getPodEnvVars_def Let_def
      split: sum.splits option.splits prod.splits)

lemma advanced_getPodEnvVars: "advanced 6 w (snd (getPodEnvVars env w))"
  by (auto simp: getPodEnvVars_def Let_def workerEvent_def advanced_refl
      intro!: advanced_logEvent split: sum.splits)

lemma advanced_launchPrecaching: "advanced 6 w (snd (launchPrecaching env f ibu w))"
proof -
  have ev: "workerEvent 6 EvGetReleaseRegistry" "workerEvent 6 EvReadSeedClusterInfo"
    "workerEvent 6 EvShouldOverrideSeedRegistry" "workerEvent 6 EvReadPrecachingList"
    "\<And>l v. workerEvent 6 (EvCreateJob l v)"
    by (simp_all add: workerEvent_def)
  let ?w4 = "logEvent EvReadPrecachingList (logEvent EvShouldOverrideSeedRegistry
      (logEvent EvReadSeedClusterInfo (logEvent EvGetReleaseRegistry w)))"
  have a4: "advanced 6 w ?w4"
    by (intro advanced_logEvent ev advanced_refl)
  have a5: "advanced 6 w (snd (getPodEnvVars env ?w4))"
    by (rule advanced_trans [OF a4 advanced_getPodEnvVars])
  have a6: "\<And>l v. advanced 6 w (logEvent (EvCreateJob l v) (snd (getPodEnvVars env ?w4)))"
    by (intro advanced_logEvent ev a5)
  have a1: "advanced 6 w (logEvent EvGetReleaseRegistry w)"
    by (intro advanced_logEvent ev advanced_refl)
  have a2: "advanced 6 w (logEvent EvReadSeedClusterInfo (logEvent EvGetReleaseRegistry w))"
    by (intro advanced_logEvent ev advanced_refl)
  have a3: "advanced 6 w (logEvent EvShouldOverrideSeedRegistry
      (logEvent EvReadSeedClusterInfo (logEvent EvGetReleaseRegistry w)))"
    by (intro advanced_logEvent ev advanced_refl)
  show ?thesis
    using a1 a2 a3 a4 a5 a6
    by (auto simp: launchPrecaching_def Let_def split: sum.splits option.splits prod.splits)
qed

subsection \<open>One stage at a time\<close>

lemma pull_canceled:
  "ctxDone env BeforePull = Some e \<Longrightarrow>
   prepStageWorker_pull env ibu f w
     = Some (Some (Wrapped ''context canceled before pulling seed image: '' e), w)"
  by (simp add: prepStageWorker_pull_def)

lemma stateroot_canceled:
  "ctxDone env BeforeStateroot = Some e \<Longrightarrow>
   prepStageWorker_stateroot env ibu f w
     = Some (Some (Wrapped ''context canceled before setting up stateroot: '' e), w)"
  by (simp add: prepStageWorker_stateroot_def)

lemma precache_canceled:
  "ctxDone env BeforePrecache = Some e \<Longrightarrow>
   prepStageWorker_precache env ibu f w
     = Some (Some (Wrapped ''context canceled before creating precaching job: '' e), w)"
  by (simp add: prepStageWorker_precache_def)

lemma wait_canceled:
  "ctxDone env (PollWait 0) = Some e \<Longrightarrow>
   prepStageWorker_wait env w
     = Some (Some (Wrapped ''failed to precache images: '' e),
             setProgress ''Waiting for precaching job to complete'' w)"
  by (simp add: prepStageWorker_wait_def Poll_canceled Let_def)

lemma steps_pass:
  assumes "fst (validateSeedOcpVersion env (Version ibu) w') = None"
  shows "prepStageWorker_steps env ibu w
    = prepStageWorker_pull env ibu (filepathJoin env (IBUWorkspacePath env) ''image-list-file'')
        (logEvent EvGetClusterVersion w)"
proof -
  have "fst (validateSeedOcpVersion env (Version ibu) w) = None"
    using assms validateSeedOcpVersion_result by metis
  then have "validateSeedOcpVersion env (Version ibu) w = (None, logEvent EvGetClusterVersion w)"
    using validateSeedOcpVersion_world [of env "Version ibu" w] by (metis prod.collapse)
  then show ?thesis by (simp add: prepStageWorker_steps_def)
qed

lemma steps_fail:
  assumes "fst (validateSeedOcpVersion env (Version ibu) w') = Some err"
  shows "prepStageWorker_steps env ibu w
    = Some (Some (Wrapped ''failed to validate seed image OCP version in spec: '' err),
            logEvent EvGetClusterVersion w)"
proof -
  have "fst (validateSeedOcpVersion env (Version ibu) w) = Some err"
    using assms validateSeedOcpVersion_result by metis
  then have "validateSeedOcpVersion env (Version ibu) w = (Some err, logEvent EvGetClusterVersion w)"
    using validateSeedOcpVersion_world [of env "Version ibu" w] by (metis prod.collapse)
  then show ?thesis by (simp add: prepStageWorker_steps_def)
qed

lemma pull_pass:
  assumes "ctxDone env BeforePull = None" and "fst (getSeedImage env ibu w') = None"
  shows "prepStageWorker_pull env ibu f w
    = prepStageWorker_stateroot env ibu f
        (setProgress ''Successfully pulled seed image''
          (snd (getSeedImage env ibu (setProgress ''Pulling seed image'' w))))"
proof -
  have "fst (getSeedImage env ibu (setProgress ''Pulling seed image'' w)) = None"
    using assms(2) getSeedImage_result by metis
  then show ?thesis using assms(1)
    by (auto simp: prepStageWorker_pull_def split: prod.splits)
qed

lemma pull_fail:
  assumes "ctxDone env BeforePull = None" and "fst (getSeedImage env ibu w') = Some err"
  shows "prepStageWorker_pull env ibu f w
    = Some (Some (Wrapped ''failed to pull seed image: '' err),
            snd (getSeedImage env ibu (setProgress ''Pulling seed image'' w)))"
proof -
  have "fst (getSeedImage env ibu (setProgress ''Pulling seed image'' w)) = Some err"
    using assms(2) getSeedImage_result by metis
  then show ?thesis using assms(1)
    by (auto simp: prepStageWorker_pull_def split: prod.splits)
qed

lemma stateroot_pass:
  assumes "ctxDone env BeforeStateroot = None" and "fst (SetupStateroot env w') = None"
  shows "prepStageWorker_stateroot env ibu f w
    = prepStageWorker_precache env ibu f
        (setProgress ''Successfully setup stateroot''
          (snd (SetupStateroot env (setProgress ''Setting up stateroot'' w))))"
proof -
  have "fst (SetupStateroot env (setProgress ''Setting up stateroot'' w)) = None"
    using assms(2) SetupStateroot_result by metis
  then show ?thesis using assms(1)
    by (auto simp: prepStageWorker_stateroot_def split: prod.splits)
qed

lemma stateroot_fail:
  assumes "ctxDone env BeforeStateroot = None" and "fst (SetupStateroot env w') = Some err"
  shows "prepStageWorker_stateroot env ibu f w
    = Some (Some (Wrapped ''failed to setup stateroot with prep stage worker: '' err),
            snd (SetupStateroot env (setProgress ''Setting up stateroot'' w)))"
proof -
  have "fst (SetupStateroot env (setProgress ''Setting up stateroot'' w)) = Some err"
    using assms(2) SetupStateroot_result by metis
  then show ?thesis using assms(1)
    by (auto simp: prepStageWorker_stateroot_def split: prod.splits)
qed

lemma precache_pass:
  assumes "ctxDone env BeforePrecache = None"
    and "fst (launchPrecaching env f ibu w') = (True, None)"
  shows "prepStageWorker_precache env ibu f w
    = prepStageWorker_wait env
        (setProgress ''Successfully created precaching job''
          (snd (launchPrecaching env f ibu (setProgress ''Creating precaching job'' w))))"
proof -
  have "fst (launchPrecaching env f ibu (setProgress ''Creating precaching job'' w)) = (True, None)"
    using assms(2) launchPrecaching_result by metis
  then show ?thesis using assms(1)
    by (auto simp: prepStageWorker_precache_def split: prod.splits)
qed

lemma precache_fail:
  assumes "ctxDone env BeforePrecache = None"
    and "fst (launchPrecaching env f ibu w') \<noteq> (True, None)"
  shows "\<exists>e. prepStageWorker_precache env ibu f w
    = Some (Some e, snd (launchPrecaching env f ibu (setProgress ''Creating precaching job'' w)))"
proof -
  have "fst (launchPrecaching env f ibu (setProgress ''Creating precaching job'' w)) \<noteq> (True, None)"
    using assms(2) launchPrecaching_result by metis
  then show ?thesis using assms(1)
    by (auto simp: prepStageWorker_precache_def split: prod.splits option.splits)
qed

subsection \<open>Where the pipeline stops\<close>

lemma stopped_wait:
  "ctxDone env (PollWait 0) \<noteq> None \<Longrightarrow> stopped 6 w (prepStageWorker_wait env w)"
  by (auto intro!: stoppedI [OF wait_canceled] advanced_setProgress)

lemma stopped_precache_5:
  "ctxDone env BeforePrecache \<noteq> None \<Longrightarrow> stopped 5 w (prepStageWorker_precache env ibu f w)"
  by (auto intro!: stoppedI [OF precache_canceled] advanced_refl)

lemma stopped_precache_6:
  assumes "ctxDone env (PollWait 0) \<noteq> None"
  shows "stopped 6 w (prepStageWorker_precache env ibu f w)"
proof (cases "ctxDone env BeforePrecache")
  case (Some e)
  then show ?thesis by (auto intro!: stoppedI [OF precache_canceled] advanced_refl)
next
  case None
  let ?w1 = "snd (launchPrecaching env f ibu (setProgress ''Creating precaching job'' w))"
  have a: "advanced 6 w ?w1"
    by (rule advanced_trans [OF advanced_setProgress advanced_launchPrecaching])
  show ?thesis
  proof (cases "fst (launchPrecaching env f ibu w) = (True, None)")
    case True
    show ?thesis
      unfolding precache_pass [OF None True]
      by (rule stopped_after [OF advanced_setProgress' [OF a] stopped_wait [OF assms]])
  next
    case False
    from precache_fail [OF None False] obtain e where
      "prepStageWorker_precache env ibu f w = Some (Some e, ?w1)" by blast
    then show ?thesis using a by (rule stoppedI)
  qed
qed

lemma stopped_stateroot_4:
  "ctxDone env BeforeStateroot \<noteq> None \<Longrightarrow> stopped 4 w (prepStageWorker_stateroot env ibu f w)"
  by (auto intro!: stoppedI [OF stateroot_canceled] advanced_refl)

lemma stopped_stateroot:
  assumes "\<And>w1. stopped k w1 (prepStageWorker_precache env ibu f w1)" and "5 \<le> k"
  shows "stopped k w (prepStageWorker_stateroot env ibu f w)"
proof (cases "ctxDone env BeforeStateroot")
  case (Some e)
  then show ?thesis by (auto intro!: stoppedI [OF stateroot_canceled] advanced_refl)
next
  case None
  let ?w1 = "snd (SetupStateroot env (setProgress ''Setting up stateroot'' w))"
  have a: "advanced k w ?w1"
    by (rule advanced_mono [OF assms(2)
          advanced_trans [OF advanced_setProgress advanced_SetupStateroot]])
  show ?thesis
  proof (cases "fst (SetupStateroot env w)")
    case n: None
    show ?thesis
      unfolding stateroot_pass [OF None n]
      by (rule stopped_after [OF advanced_setProgress' [OF a] assms(1)])
  next
    case (Some err)
    show ?thesis by (rule stoppedI [OF stateroot_fail [OF None Some] a])
  qed
qed

lemma stopped_pull_2:
  "ctxDone env BeforePull \<noteq> None \<Longrightarrow> stopped 2 w (prepStageWorker_pull env ibu f w)"
  by (auto intro!: stoppedI [OF pull_canceled] advanced_refl)

lemma stopped_pull_seed:
  assumes "fst (getSeedImage env ibu w') \<noteq> None"
  shows "stopped 4 w (prepStageWorker_pull env ibu f w)"
proof (cases "ctxDone env BeforePull")
  case (Some e)
  then show ?thesis by (auto intro!: stoppedI [OF pull_canceled] advanced_refl)
next
  case None
  from assms obtain err where e: "fst (getSeedImage env ibu w') = Some err" by auto
  show ?thesis
    by (rule stoppedI [OF pull_fail [OF None e]
          advanced_trans [OF advanced_setProgress advanced_getSeedImage]])
qed

lemma stopped_pull:
  assumes "\<And>w1. stopped k w1 (prepStageWorker_stateroot env ibu f w1)" and "4 \<le> k"
  shows "stopped k w (prepStageWorker_pull env ibu f w)"
proof (cases "ctxDone env BeforePull")
  case (Some e)
  then show ?thesis by (auto intro!: stoppedI [OF pull_canceled] advanced_refl)
next
  case None
  let ?w1 = "snd (getSeedImage env ibu (setProgress ''Pulling seed image'' w))"
  have a: "advanced k w ?w1"
    by (rule advanced_mono [OF assms(2)
          advanced_trans [OF advanced_setProgress advanced_getSeedImage]])
  show ?thesis
  proof (cases "fst (getSeedImage env ibu w)")
    case n: None
    show ?thesis
      unfolding pull_pass [OF None n]
      by (rule stopped_after [OF advanced_setProgress' [OF a] assms(1)])
  next
    case (Some err)
    show ?thesis by (rule stoppedI [OF pull_fail [OF None Some] a])
  qed
qed

lemma stopped_steps:
  assumes "\<And>f w1. stopped k w1 (prepStageWorker_pull env ibu f w1)" and "2 \<le> k"
  shows "stopped k w (prepStageWorker_steps env ibu w)"
proof -
  have a: "advanced k w (logEvent EvGetClusterVersion w)"
    using assms(2) by (intro advanced_logEvent advanced_refl) (simp add: workerEvent_def)
  show ?thesis
  proof (cases "fst (validateSeedOcpVersion env (Version ibu) w)")
    case None
    show ?thesis unfolding steps_pass [OF None] by (rule stopped_after [OF a assms(1)])
  next
    case (Some err)
    show ?thesis by (rule stoppedI [OF steps_fail [OF Some] a])
  qed
qed

lemma stopped_worker:
  assumes "\<And>w1. stopped k w1 (prepStageWorker_steps env ibu w1)"
  shows "stopped k w (prepStageWorker env ibu w)"
proof -
  let ?w0 = "w\<lparr>PrepTask := (PrepTask w)\<lparr>Cancel := Some CancelFunc\<rparr>\<rparr>"
  have a0: "advanced k w ?w0" by (simp add: advanced_def)
  from assms [of ?w0] obtain e w1 where
    r: "prepStageWorker_steps env ibu ?w0 = Some (Some e, w1)" and a1: "advanced k ?w0 w1"
    by (auto simp: stopped_def)
  have "advanced k w (logEvent EvCancel (setProgress (''Prep failed with error: '' @ errorMessage e) w1))"
    by (intro advanced_logEvent advanced_setProgress' advanced_trans [OF a0 a1])
       (simp add: workerEvent_def)
  then show ?thesis using r by (intro stoppedI) (simp_all add: prepStageWorker_def)
qed

lemma worker_error:
  "prepStageWorker_steps env ibu (w\<lparr>PrepTask := (PrepTask w)\<lparr>Cancel := Some CancelFunc\<rparr>\<rparr>)
     = Some (Some err, w1) \<Longrightarrow>
   map_option fst (prepStageWorker env ibu w)
     = Some (Some (Wrapped ''encountered error while running prep-stage worker goroutine: '' err))"
  by (simp add: prepStageWorker_def)

lemma goroutine_stopped:
  assumes s: "stopped k w (prepStageWorker env ibu w)" and k: "0 < k"
    and d: "doneChan (PrepTask w) = Some c" and o: "\<not> chanClosed w c"
  shows "\<exists>w2. prepGoroutine env ibu w = Some (Returned, w2)
     \<and> stepsBelow k (newEvents w w2)
     \<and> count_list (trace w2) (EvClose c) = 1
     \<and> \<not> Success (PrepTask w2)"
proof -
  from s obtain e w1 where r: "prepStageWorker env ibu w = Some (Some e, w1)"
    and a: "advanced k w w1" by (auto simp: stopped_def)
  have d1: "doneChan (PrepTask w1) = Some c" using a d by (simp add: advanced_def)
  have c0: "count_list (trace w) (EvClose c) = 0" using o by (simp add: chanClosed_def)
  then have c1: "count_list (trace w1) (EvClose c) = 0" using advanced_no_close [OF a] by simp
  then have o1: "\<not> chanClosed w1 c" by (simp add: chanClosed_def count_list_0_iff)
  let ?w2 = "(logEvent (EvClose c) w1)\<lparr>PrepTask := (PrepTask (logEvent (EvClose c) w1))\<lparr>Success := False\<rparr>\<rparr>"
  have g: "prepGoroutine env ibu w = Some (Returned, ?w2)"
    using r d1 o1 by (simp add: prepGoroutine_def closeChan_def)
  from a obtain evs where evs: "trace w1 = trace w @ evs" "list_all (workerEvent k) evs"
    by (auto simp: advanced_def)
  have n: "newEvents w ?w2 = evs @ [EvClose c]"
    using evs(1) by (simp add: newEvents_def logEvent_def)
  have sb: "stepsBelow k (newEvents w ?w2)"
    unfolding n using evs(2) k
    by (fastforce simp: stepsBelow_def list_all_iff workerEvent_def)
  have cnt: "count_list (trace ?w2) (EvClose c) = 1"
    using c1 by (simp add: logEvent_def)
  show ?thesis using g sb cnt by (intro exI [of _ ?w2]) (simp add: logEvent_def)
qed

text \<open>
  Claim C8. The compatibility label check succeeds exactly when the image inspection
  yields output that decodes to exactly one result whose labels hold the format-version
  label with the decimal rendering of the expected version as its value. A result count
  other than one, a missing label and a different value each give their own error. When
  the check fails the pipeline is aborted: the worker returns an error and no call of
  deployment setup or of any later step is made; if the pipeline reaches the check (the
  version gate passes, the context is not canceled before the pull, there is no pull
  secret, the pull succeeds) the worker's error is the wrapped error of the check.
\<close>

theorem checkSeedImageCompatibility_label:
  "(fst (checkSeedImageCompatibility env (Image ibu) w) = None \<longleftrightarrow>
      (\<exists>raw labels. podmanInspect env = Inr raw \<and> raw \<noteq> []
         \<and> jsonUnmarshal env raw = Inr [labels]
         \<and> labels (SeedFormatOCILabel env) = Some (fmtD (SeedFormatVersion env))))
   \<and> (\<forall>raw inspect. podmanInspect env = Inr raw \<and> raw \<noteq> []
         \<and> jsonUnmarshal env raw = Inr inspect \<and> length inspect \<noteq> 1 \<longrightarrow>
         fst (checkSeedImageCompatibility env (Image ibu) w)
           = Some (ErrorString (''expected 1 image inspect result, got ''
                @ fmtD (int (length inspect)))))
   \<and> (\<forall>raw labels. podmanInspect env = Inr raw \<and> raw \<noteq> []
         \<and> jsonUnmarshal env raw = Inr [labels] \<and> labels (SeedFormatOCILabel env) = None \<longrightarrow>
         fst (checkSeedImageCompatibility env (Image ibu) w)
           = Some (ErrorString (''seed image '' @ Image ibu @ '' is missing the ''
                @ SeedFormatOCILabel env
                @ '' label, please build a new image using the latest version of the lca-cli'')))
   \<and> (\<forall>raw labels v. podmanInspect env = Inr raw \<and> raw \<noteq> []
         \<and> jsonUnmarshal env raw = Inr [labels] \<and> labels (SeedFormatOCILabel env) = Some v
         \<and> v \<noteq> fmtD (SeedFormatVersion env) \<longrightarrow>
         fst (checkSeedImageCompatibility env (Image ibu) w)
           = Some (ErrorString (''seed image format version mismatch: expected ''
                @ fmtD (SeedFormatVersion env) @ '', got '' @ v)))
   \<and> (fst (checkSeedImageCompatibility env (Image ibu) w) \<noteq> None \<longrightarrow>
         (\<exists>e w2. prepStageWorker env ibu w = Some (Some e, w2)
            \<and> stepsBelow 4 (newEvents w w2)))
   \<and> (\<forall>err out. fst (checkSeedImageCompatibility env (Image ibu) w) = Some err
         \<and> fst (validateSeedOcpVersion env (Version ibu) w) = None
         \<and> ctxDone env BeforePull = None \<and> PullSecretRef ibu = None
         \<and> podmanPull env = Inr out \<longrightarrow>
         map_option fst (prepStageWorker env ibu w)
           = Some (Some (Wrapped ''encountered error while running prep-stage worker goroutine: ''
               (Wrapped ''failed to pull seed image: ''
                 (Wrapped ''checking seed image compatibility: '' err)))))"
proof -
  have abort: "\<exists>e w2. prepStageWorker env ibu w = Some (Some e, w2) \<and> stepsBelow 4 (newEvents w w2)"
    if f: "fst (checkSeedImageCompatibility env (Image ibu) w) \<noteq> None"
  proof -
    from f obtain err where "fst (checkSeedImageCompatibility env (Image ibu) w) = Some err"
      by auto
    then have g: "\<And>w1. fst (getSeedImage env ibu w1) \<noteq> None"
      by (rule getSeedImage_check_fails)
    have "stopped 4 w (prepStageWorker env ibu w)"
      by (intro stopped_worker stopped_steps stopped_pull_seed g) simp
    then show ?thesis
      using advanced_newEvents [of 4 w] by (auto simp: stopped_def)
  qed
  have wrapped: "map_option fst (prepStageWorker env ibu w)
           = Some (Some (Wrapped ''encountered error while running prep-stage worker goroutine: ''
               (Wrapped ''failed to pull seed image: ''
                 (Wrapped ''checking seed image compatibility: '' err))))"
    if h: "fst (checkSeedImageCompatibility env (Image ibu) w) = Some err"
      "fst (validateSeedOcpVersion env (Version ibu) w) = None"
      "ctxDone env BeforePull = None" "PullSecretRef ibu = None" "podmanPull env = Inr out"
    for err out
  proof -
    have g: "fst (getSeedImage env ibu w)
        = Some (Wrapped ''checking seed image compatibility: '' err)"
      by (rule getSeedImage_check_fails_wrapped [OF h(1) h(4) h(5)])
    show ?thesis
      by (rule worker_error) (simp add: steps_pass [OF h(2)] pull_fail [OF h(3) g])
  qed
  show ?thesis
    using checkSeedImageCompatibility_ok_iff [of env "Image ibu" w]
      checkSeedImageCompatibility_count [of env _ _ "Image ibu" w]
      checkSeedImageCompatibility_absent [of env _ _ "Image ibu" w]
      checkSeedImageCompatibility_mismatch [of env _ _ _ "Image ibu" w]
      abort wrapped
    by (intro conjI allI impI) (blast+)
qed

theorem checkSeedImageCompatibility_label_witness:
  "fst (checkSeedImageCompatibility envOk (Image ibuOk) world0) = None
   \<and> podmanInspect envWrongLabel = Inr ''[{}]''
   \<and> fst (checkSeedImageCompatibility envWrongLabel (Image ibuOk) world0)
       = Some (ErrorString ''seed image format version mismatch: expected 3, got 2'')
   \<and> map_option fst (prepStageWorker envWrongLabel ibuOk world0)
       = Some (Some (Wrapped ''encountered error while running prep-stage worker goroutine: ''
           (Wrapped ''failed to pull seed image: ''
             (Wrapped ''checking seed image compatibility: ''
               (ErrorString ''seed image format version mismatch: expected 3, got 2'')))))"
proof -
  have f3: "fmtD 3 = ''3''" by (simp add: fmtD_def fmtNat.simps)
  have ok: "\<exists>raw labels. podmanInspect envOk = Inr raw \<and> raw \<noteq> []
         \<and> jsonUnmarshal envOk raw = Inr [labels]
         \<and> labels (SeedFormatOCILabel envOk) = Some (fmtD (SeedFormatVersion envOk))"
    by (simp add: envOk_def f3)
  have c1: "fst (checkSeedImageCompatibility envOk (Image ibuOk) world0) = None"
    using checkSeedImageCompatibility_label [of envOk ibuOk world0] ok by blast
  have i: "podmanInspect envWrongLabel = Inr ''[{}]''"
    and u: "jsonUnmarshal envWrongLabel ''[{}]'' = Inr [[''seed_format_version'' \<mapsto> ''2'']]"
    and l: "[''seed_format_version'' \<mapsto> ''2''] (SeedFormatOCILabel envWrongLabel) = Some ''2''"
    and v: "''2'' \<noteq> fmtD (SeedFormatVersion envWrongLabel)"
    by (simp_all add: envWrongLabel_def envOk_def f3)
  have c2: "fst (checkSeedImageCompatibility envWrongLabel (Image ibuOk) world0)
       = Some (ErrorString (''seed image format version mismatch: expected ''
                @ fmtD (SeedFormatVersion envWrongLabel) @ '', got '' @ ''2''))"
    using checkSeedImageCompatibility_label [of envWrongLabel ibuOk world0] i u l v by blast
  have r: "fst (validateSeedOcpVersion envWrongLabel (Version ibuOk) world0) = None"
    "ctxDone envWrongLabel BeforePull = None" "PullSecretRef ibuOk = None"
    "podmanPull envWrongLabel = Inr ''pulled''"
    by (simp_all add: validateSeedOcpVersion_def envWrongLabel_def envOk_def ibuOk_def
        parseExample_def compareExample_def)
  have c3: "map_option fst (prepStageWorker envWrongLabel ibuOk world0)
           = Some (Some (Wrapped ''encountered error while running prep-stage worker goroutine: ''
               (Wrapped ''failed to pull seed image: ''
                 (Wrapped ''checking seed image compatibility: ''
                   (ErrorString (''seed image format version mismatch: expected ''
                @ fmtD (SeedFormatVersion envWrongLabel) @ '', got '' @ ''2''))))))"
    using checkSeedImageCompatibility_label [of envWrongLabel ibuOk world0] c2 r by blast
  have s: "fmtD (SeedFormatVersion envWrongLabel) = ''3''"
    by (simp add: envWrongLabel_def envOk_def f3)
  show ?thesis using c1 i c2 c3 by (simp add: s)
qed

text \<open>
  Claim C2, as amended. The worker looks at its context before three stages: pulling the
  seed image (image acquisition and the label check, steps 2 and 3), setting up the
  stateroot (step 4) and creating the precaching job (step 5); the wait for the job
  (step 6) starts with a wait of the polling helper that returns the context's error.
  Let the completion signal of the run be open. If the context is done at one of these
  places, the goroutine returns, no call of that stage or of a later one is made, the
  completion signal is closed exactly once, and success is false. If moreover the
  pipeline reaches the place (every earlier stage succeeded and the context was not done
  at the earlier places), the worker's error is the cancellation error that names the
  stage; for the wait it is the error of the precaching wait that wraps the context's
  error. The version gate (step 1) runs without any look at the context: it has run
  before the first of these places, and when it fails its error is the worker's error
  whatever the state of the context.
\<close>

theorem prepStageWorker_cancellation:
  fixes env :: env and ibu :: ImageBasedUpgrade and w :: world and c :: chan
  assumes "doneChan (PrepTask w) = Some c" and "\<not> chanClosed w c"
  defines "f \<equiv> filepathJoin env (IBUWorkspacePath env) ''image-list-file''"
  defines "goroutineErr \<equiv> Wrapped ''encountered error while running prep-stage worker goroutine: ''"
  shows
   "(ctxDone env BeforePull \<noteq> None \<longrightarrow>
       (\<exists>w2. prepGoroutine env ibu w = Some (Returned, w2) \<and> stepsBelow 2 (newEvents w w2)
          \<and> count_list (trace w2) (EvClose c) = 1 \<and> \<not> Success (PrepTask w2)))
    \<and> (ctxDone env BeforeStateroot \<noteq> None \<longrightarrow>
       (\<exists>w2. prepGoroutine env ibu w = Some (Returned, w2) \<and> stepsBelow 4 (newEvents w w2)
          \<and> count_list (trace w2) (EvClose c) = 1 \<and> \<not> Success (PrepTask w2)))
    \<and> (ctxDone env BeforePrecache \<noteq> None \<longrightarrow>
       (\<exists>w2. prepGoroutine env ibu w = Some (Returned, w2) \<and> stepsBelow 5 (newEvents w w2)
          \<and> count_list (trace w2) (EvClose c) = 1 \<and> \<not> Success (PrepTask w2)))
    \<and> (ctxDone env (PollWait 0) \<noteq> None \<longrightarrow>
       (\<exists>w2. prepGoroutine env ibu w = Some (Returned, w2) \<and> stepsBelow 6 (newEvents w w2)
          \<and> count_list (trace w2) (EvClose c) = 1 \<and> \<not> Success (PrepTask w2)))
    \<and> (\<forall>e. ctxDone env BeforePull = Some e
          \<and> fst (validateSeedOcpVersion env (Version ibu) w) = None \<longrightarrow>
          map_option fst (prepStageWorker env ibu w)
            = Some (Some (goroutineErr (Wrapped ''context canceled before pulling seed image: '' e)))
          \<and> map_option (trace \<circ> snd) (prepStageWorker env ibu w)
            = Some (trace w @ [EvGetClusterVersion, EvCancel]))
    \<and> (\<forall>e. ctxDone env BeforeStateroot = Some e
          \<and> fst (validateSeedOcpVersion env (Version ibu) w) = None
          \<and> ctxDone env BeforePull = None \<and> fst (getSeedImage env ibu w) = None \<longrightarrow>
          map_option fst (prepStageWorker env ibu w)
            = Some (Some (goroutineErr (Wrapped ''context canceled before setting up stateroot: '' e))))
    \<and> (\<forall>e. ctxDone env BeforePrecache = Some e
          \<and> fst (validateSeedOcpVersion env (Version ibu) w) = None
          \<and> ctxDone env BeforePull = None \<and> fst (getSeedImage env ibu w) = None
          \<and> ctxDone env BeforeStateroot = None \<and> fst (SetupStateroot env w) = None \<longrightarrow>
          map_option fst (prepStageWorker env ibu w)
            = Some (Some (goroutineErr (Wrapped ''context canceled before creating precaching job: '' e))))
    \<and> (\<forall>e. ctxDone env (PollWait 0) = Some e
          \<and> fst (validateSeedOcpVersion env (Version ibu) w) = None
          \<and> ctxDone env BeforePull = None \<and> fst (getSeedImage env ibu w) = None
          \<and> ctxDone env BeforeStateroot = None \<and> fst (SetupStateroot env w) = None
          \<and> ctxDone env BeforePrecache = None
          \<and> fst (launchPrecaching env f ibu w) = (True, None) \<longrightarrow>
          map_option fst (prepStageWorker env ibu w)
            = Some (Some (goroutineErr (Wrapped ''failed to precache images: '' e))))
    \<and> (\<forall>err. fst (validateSeedOcpVersion env (Version ibu) w) = Some err \<longrightarrow>
          map_option fst (prepStageWorker env ibu w)
            = Some (Some (goroutineErr
                (Wrapped ''failed to validate seed image OCP version in spec: '' err)))
          \<and> map_option (trace \<circ> snd) (prepStageWorker env ibu w)
            = Some (trace w @ [EvGetClusterVersion, EvCancel]))"
proof -
  have s2: "stopped 2 w (prepStageWorker env ibu w)" if "ctxDone env BeforePull \<noteq> None"
    by (intro stopped_worker stopped_steps stopped_pull_2 that) simp
  have s4: "stopped 4 w (prepStageWorker env ibu w)" if "ctxDone env BeforeStateroot \<noteq> None"
    by (intro stopped_worker stopped_steps stopped_pull stopped_stateroot_4 that) simp_all
  have s5: "stopped 5 w (prepStageWorker env ibu w)" if "ctxDone env BeforePrecache \<noteq> None"
    by (intro stopped_worker stopped_steps stopped_pull stopped_stateroot stopped_precache_5 that)
       simp_all
  have s6: "stopped 6 w (prepStageWorker env ibu w)" if "ctxDone env (PollWait 0) \<noteq> None"
    by (intro stopped_worker stopped_steps stopped_pull stopped_stateroot stopped_precache_6 that)
       simp_all
  note g = goroutine_stopped [OF _ _ assms(1,2)]
  have e2: "map_option fst (prepStageWorker env ibu w)
      = Some (Some (goroutineErr (Wrapped ''context canceled before pulling seed image: '' e)))
    \<and> map_option (trace \<circ> snd) (prepStageWorker env ibu w)
      = Some (trace w @ [EvGetClusterVersion, EvCancel])"
    if "ctxDone env BeforePull = Some e" "fst (validateSeedOcpVersion env (Version ibu) w) = None"
    for e
    unfolding goroutineErr_def
    by (simp add: prepStageWorker_def steps_pass [OF that(2)] pull_canceled [OF that(1)]
        logEvent_def setProgress_def)
  have e1: "map_option fst (prepStageWorker env ibu w)
      = Some (Some (goroutineErr
          (Wrapped ''failed to validate seed image OCP version in spec: '' err)))
    \<and> map_option (trace \<circ> snd) (prepStageWorker env ibu w)
      = Some (trace w @ [EvGetClusterVersion, EvCancel])"
    if "fst (validateSeedOcpVersion env (Version ibu) w) = Some err" for err
    unfolding goroutineErr_def by (simp add: prepStageWorker_gate_fails [OF that])
  have e4: "map_option fst (prepStageWorker env ibu w)
      = Some (Some (goroutineErr (Wrapped ''context canceled before setting up stateroot: '' e)))"
    if "ctxDone env BeforeStateroot = Some e"
      "fst (validateSeedOcpVersion env (Version ibu) w) = None"
      "ctxDone env BeforePull = None" "fst (getSeedImage env ibu w) = None"
    for e
    unfolding goroutineErr_def
    by (rule worker_error)
       (simp add: steps_pass [OF that(2)] pull_pass [OF that(3,4)] stateroot_canceled [OF that(1)])
  have e5: "map_option fst (prepStageWorker env ibu w)
      = Some (Some (goroutineErr (Wrapped ''context canceled before creating precaching job: '' e)))"
    if "ctxDone env BeforePrecache = Some e"
      "fst (validateSeedOcpVersion env (Version ibu) w) = None"
      "ctxDone env BeforePull = None" "fst (getSeedImage env ibu w) = None"
      "ctxDone env BeforeStateroot = None" "fst (SetupStateroot env w) = None"
    for e
    unfolding goroutineErr_def
    by (rule worker_error)
       (simp add: steps_pass [OF that(2)] pull_pass [OF that(3,4)] stateroot_pass [OF that(5,6)]
          precache_canceled [OF that(1)])
  have e6: "map_option fst (prepStageWorker env ibu w)
      = Some (Some (goroutineErr (Wrapped ''failed to precache images: '' e)))"
    if "ctxDone env (PollWait 0) = Some e"
      "fst (validateSeedOcpVersion env (Version ibu) w) = None"
      "ctxDone env BeforePull = None" "fst (getSeedImage env ibu w) = None"
      "ctxDone env BeforeStateroot = None" "fst (SetupStateroot env w) = None"
      "ctxDone env BeforePrecache = None" "fst (launchPrecaching env f ibu w) = (True, None)"
    for e
    unfolding goroutineErr_def
    by (rule worker_error)
       (simp add: steps_pass [OF that(2)] pull_pass [OF that(3,4)] stateroot_pass [OF that(5,6)]
          precache_pass [OF that(7) that(8) [unfolded f_def]] wait_canceled [OF that(1)])
  show ?thesis
  proof (intro conjI allI impI)
    fix e
    assume "ctxDone env BeforePull = Some e
          \<and> fst (validateSeedOcpVersion env (Version ibu) w) = None"
    then have h: "ctxDone env BeforePull = Some e"
      "fst (validateSeedOcpVersion env (Version ibu) w) = None" by simp_all
    show "map_option fst (prepStageWorker env ibu w)
        = Some (Some (goroutineErr (Wrapped ''context canceled before pulling seed image: '' e)))"
      using e2 [OF h] by simp
    show "map_option (trace \<circ> snd) (prepStageWorker env ibu w)
        = Some (trace w @ [EvGetClusterVersion, EvCancel])"
      using e2 [OF h] by simp
  next
    fix e
    assume "ctxDone env BeforeStateroot = Some e
          \<and> fst (validateSeedOcpVersion env (Version ibu) w) = None
          \<and> ctxDone env BeforePull = None \<and> fst (getSeedImage env ibu w) = None"
    then show "map_option fst (prepStageWorker env ibu w)
        = Some (Some (goroutineErr (Wrapped ''context canceled before setting up stateroot: '' e)))"
      using e4 [of e] by simp
  next
    fix e
    assume "ctxDone env BeforePrecache = Some e
          \<and> fst (validateSeedOcpVersion env (Version ibu) w) = None
          \<and> ctxDone env BeforePull = None \<and> fst (getSeedImage env ibu w) = None
          \<and> ctxDone env BeforeStateroot = None \<and> fst (SetupStateroot env w) = None"
    then show "map_option fst (prepStageWorker env ibu w)
        = Some (Some (goroutineErr (Wrapped ''context canceled before creating precaching job: '' e)))"
      using e5 [of e] by simp
  next
    fix e
    assume "ctxDone env (PollWait 0) = Some e
          \<and> fst (validateSeedOcpVersion env (Version ibu) w) = None
          \<and> ctxDone env BeforePull = None \<and> fst (getSeedImage env ibu w) = None
          \<and> ctxDone env BeforeStateroot = None \<and> fst (SetupStateroot env w) = None
          \<and> ctxDone env BeforePrecache = None
          \<and> fst (launchPrecaching env f ibu w) = (True, None)"
    then show "map_option fst (prepStageWorker env ibu w)
        = Some (Some (goroutineErr (Wrapped ''failed to precache images: '' e)))"
      using e6 [of e] by simp
  next
    fix err
    assume h: "fst (validateSeedOcpVersion env (Version ibu) w) = Some err"
    show "map_option fst (prepStageWorker env ibu w)
        = Some (Some (goroutineErr
            (Wrapped ''failed to validate seed image OCP version in spec: '' err)))"
      using e1 [OF h] by simp
    show "map_option (trace \<circ> snd) (prepStageWorker env ibu w)
        = Some (trace w @ [EvGetClusterVersion, EvCancel])"
      using e1 [OF h] by simp
  qed (use g [OF s2] g [OF s4] g [OF s5] g [OF s6] in simp_all)
qed

theorem prepStageWorker_cancellation_witness:
  "doneChan (PrepTask worldStarted) = Some 0
   \<and> \<not> chanClosed worldStarted 0
   \<and> ctxDone envCanceledBeforeStateroot BeforePull = None
   \<and> ctxDone envCanceledBeforeStateroot BeforeStateroot = Some Canceled
   \<and> fst (validateSeedOcpVersion envCanceledBeforeStateroot (Version ibuOk) worldStarted) = None
   \<and> fst (getSeedImage envCanceledBeforeStateroot ibuOk worldStarted) = None
   \<and> map_option fst (prepStageWorker envCanceledBeforeStateroot ibuOk worldStarted)
       = Some (Some (Wrapped ''encountered error while running prep-stage worker goroutine: ''
           (Wrapped ''context canceled before setting up stateroot: '' Canceled)))
   \<and> (\<exists>w2. prepGoroutine envCanceledBeforeStateroot ibuOk worldStarted = Some (Returned, w2)
         \<and> stepsBelow 4 (newEvents worldStarted w2)
         \<and> count_list (trace w2) (EvClose 0) = 1 \<and> \<not> Success (PrepTask w2))"
proof -
  have d: "doneChan (PrepTask worldStarted) = Some 0" by (simp add: worldStarted_def)
  have o: "\<not> chanClosed worldStarted 0" by (simp add: worldStarted_def chanClosed_def)
  have f3: "fmtD 3 = ''3''" by (simp add: fmtD_def fmtNat.simps)
  have c: "ctxDone envCanceledBeforeStateroot BeforePull = None"
    "ctxDone envCanceledBeforeStateroot BeforeStateroot = Some Canceled"
    by (simp_all add: envCanceledBeforeStateroot_def)
  have v: "fst (validateSeedOcpVersion envCanceledBeforeStateroot (Version ibuOk) worldStarted) = None"
    by (simp add: validateSeedOcpVersion_def envCanceledBeforeStateroot_def envOk_def ibuOk_def
        parseExample_def compareExample_def)
  have g: "fst (getSeedImage envCanceledBeforeStateroot ibuOk worldStarted) = None"
    by (simp add: getSeedImage_def getSeedImage_pull_def checkSeedImageCompatibility_def
        envCanceledBeforeStateroot_def envOk_def ibuOk_def f3)
  note t = prepStageWorker_cancellation [OF d o, of envCanceledBeforeStateroot ibuOk]
  have e: "map_option fst (prepStageWorker envCanceledBeforeStateroot ibuOk worldStarted)
       = Some (Some (Wrapped ''encountered error while running prep-stage worker goroutine: ''
           (Wrapped ''context canceled before setting up stateroot: '' Canceled)))"
    using t c v g by blast
  have r: "\<exists>w2. prepGoroutine envCanceledBeforeStateroot ibuOk worldStarted = Some (Returned, w2)
         \<and> stepsBelow 4 (newEvents worldStarted w2)
         \<and> count_list (trace w2) (EvClose 0) = 1 \<and> \<not> Success (PrepTask w2)"
    using t c by blast
  show ?thesis using d o c v g e r by blast
qed

text \<open>
  The claim as written speaks of every step. With a context that is canceled before the
  pipeline starts, the version gate runs all the same (the fetch of the cluster version
  is in the trace): with a seed version that is not higher the worker returns the gate's
  error, which is no cancellation error, and with a higher seed version it returns the
  cancellation error that names the pull of the seed image, not the gate.
\<close>

theorem prepStageWorker_cancellation_every_step_counterexample:
  "ctxDone envCanceled BeforePull = Some Canceled
   \<and> map_option fst (prepStageWorker envCanceled ibuOld world0)
       = Some (Some (Wrapped ''encountered error while running prep-stage worker goroutine: ''
           (Wrapped ''failed to validate seed image OCP version in spec: ''
             (ErrorString
               ''seed OCP version (4.12.1) must be higher than current OCP version (4.13.0)''))))
   \<and> map_option (trace \<circ> snd) (prepStageWorker envCanceled ibuOld world0)
       = Some [EvGetClusterVersion, EvCancel]
   \<and> map_option fst (prepStageWorker envCanceled ibuOk world0)
       = Some (Some (Wrapped ''encountered error while running prep-stage worker goroutine: ''
           (Wrapped ''context canceled before pulling seed image: '' Canceled)))
   \<and> map_option (trace \<circ> snd) (prepStageWorker envCanceled ibuOk world0)
       = Some [EvGetClusterVersion, EvCancel]"
  by (simp add: prepStageWorker_def prepStageWorker_steps_def prepStageWorker_pull_def
      validateSeedOcpVersion_def envCanceled_def envOk_def ibuOld_def ibuOk_def world0_def
      parseExample_def compareExample_def logEvent_def setProgress_def)

section \<open>Properties of the dispatcher\<close>

lemma handlePrep_checks_pass:
  "envChecksPass pc \<Longrightarrow>
   handlePrep pc w
     = handlePrep_switch (if os_IsNotExist (pcStatWorkspace pc) then logEvent EvMkdir w else w)"
  by (auto simp: handlePrep_def envChecksPass_def)

lemma handlePrep_checks_fail:
  "\<not> envChecksPass pc \<Longrightarrow>
   \<exists>e. handlePrep pc w
     = ((doNotRequeue, Some e, None),
        (if pcStatHost pc = None \<and> os_IsNotExist (pcStatWorkspace pc)
         then logEvent EvMkdir w else w))"
  by (auto simp: handlePrep_def envChecksPass_def split: option.splits)

lemma doneFired_Mkdir: "doneFired (logEvent EvMkdir w) = doneFired w"
  by (simp add: doneFired_def chanClosed_def logEvent_def split: option.splits)

lemma pipelinesStarted_Mkdir: "pipelinesStarted (logEvent EvMkdir w) = pipelinesStarted w"
  by (simp add: pipelinesStarted_def logEvent_def)

lemma noCompletion_Mkdir: "noCompletion (logEvent EvMkdir w) = noCompletion w"
  by (simp add: noCompletion_def doneFired_Mkdir) (simp add: logEvent_def)

lemma noCompletion_setProgress: "noCompletion (setProgress msg w) = noCompletion w"
  by (simp add: noCompletion_def setProgress_def doneFired_def chanClosed_def split: option.splits)

lemma switch_start:
  assumes "\<not> Active (PrepTask w)"
  shows "handlePrep_switch w
    = ((requeueWithShortInterval, None, Some (PrepInProgress ''Prep stage initialized'')),
       w\<lparr>PrepTask := (PrepTask w)\<lparr>doneChan := Some (nextChan w), Active := True,
              Success := False, Progress := ''Prep stage initialized''\<rparr>,
         nextChan := Suc (nextChan w), trace := trace w @ [EvGo]\<rparr>)"
  using assms by (simp add: handlePrep_switch_def Let_def logEvent_def)

lemma switch_running:
  assumes "Active (PrepTask w)" and "\<not> doneFired w"
  shows "handlePrep_switch w
    = ((requeueWithShortInterval, None, Some (PrepInProgress (Progress (PrepTask w)))), w)"
  using assms by (simp add: handlePrep_switch_def)

lemma switch_finished:
  assumes "Active (PrepTask w)" and "doneFired w"
  shows "handlePrep_switch w
    = ((doNotRequeue, None,
        Some (if Success (PrepTask w) then PrepCompleted (Progress (PrepTask w))
              else PrepFailed (Progress (PrepTask w)))),
       w\<lparr>PrepTask := Reset (PrepTask w)\<rparr>)"
  using assms by (simp add: handlePrep_switch_def)

lemma fresh_chan_open:
  assumes "list_all (closeBelow (nextChan w)) (trace w)"
  shows "EvClose (nextChan w) \<notin> set (trace w)"
proof
  assume "EvClose (nextChan w) \<in> set (trace w)"
  then have "closeBelow (nextChan w) (EvClose (nextChan w))"
    using assms by (auto simp: list_all_iff)
  then show False by simp
qed

lemma closeBelow_Suc: "closeBelow n ev \<Longrightarrow> closeBelow (Suc n) ev"
  by (cases ev) auto

lemma closedBelow_mono:
  "list_all (closeBelow n) evs \<Longrightarrow> list_all (closeBelow (Suc n)) evs"
  by (auto simp: list_all_iff intro: closeBelow_Suc)

lemma noCompletion_switch:
  assumes "noCompletion w"
  shows "noCompletion (snd (handlePrep_switch w))"
proof (cases "Active (PrepTask w)")
  case True
  then have "\<not> doneFired w" using assms by (simp add: noCompletion_def)
  then show ?thesis using assms True by (simp add: switch_running)
next
  case False
  have c: "list_all (closeBelow (nextChan w)) (trace w)"
    using assms by (simp add: noCompletion_def)
  show ?thesis
    using fresh_chan_open [OF c] closedBelow_mono [OF c]
    by (simp add: switch_start [OF False] noCompletion_def doneFired_def chanClosed_def)
qed

lemma noCompletion_handlePrep:
  assumes "noCompletion w"
  shows "noCompletion (snd (handlePrep pc w))"
proof (cases "envChecksPass pc")
  case True
  have "noCompletion (if os_IsNotExist (pcStatWorkspace pc) then logEvent EvMkdir w else w)"
    using assms by (simp add: noCompletion_Mkdir)
  then show ?thesis unfolding handlePrep_checks_pass [OF True] by (rule noCompletion_switch)
next
  case False
  from handlePrep_checks_fail [OF False, of w] show ?thesis
    using assms by (auto simp: noCompletion_Mkdir)
qed

lemma started_switch:
  assumes "noCompletion w"
  shows "pipelinesStarted (snd (handlePrep_switch w))
      = pipelinesStarted w + (if Active (PrepTask w) then 0 else 1)
    \<and> Active (PrepTask (snd (handlePrep_switch w)))"
proof (cases "Active (PrepTask w)")
  case True
  then have "\<not> doneFired w" using assms by (simp add: noCompletion_def)
  then show ?thesis using True by (simp add: switch_running)
next
  case False
  then show ?thesis by (simp add: switch_start pipelinesStarted_def)
qed

lemma started_handlePrep:
  assumes "noCompletion w"
  shows "pipelinesStarted (snd (handlePrep pc w))
      = pipelinesStarted w + (if \<not> Active (PrepTask w) \<and> envChecksPass pc then 1 else 0)
    \<and> (Active (PrepTask (snd (handlePrep pc w))) \<longleftrightarrow> Active (PrepTask w) \<or> envChecksPass pc)"
proof (cases "envChecksPass pc")
  case True
  let ?w1 = "if os_IsNotExist (pcStatWorkspace pc) then logEvent EvMkdir w else w"
  have n: "noCompletion ?w1" using assms by (simp add: noCompletion_Mkdir)
  have p: "pipelinesStarted ?w1 = pipelinesStarted w" "PrepTask ?w1 = PrepTask w"
    by (simp_all add: pipelinesStarted_Mkdir) (simp add: logEvent_def)
  show ?thesis
    unfolding handlePrep_checks_pass [OF True]
    using started_switch [OF n] True p by auto
next
  case False
  from handlePrep_checks_fail [OF False, of w] show ?thesis
    using False by (auto simp: pipelinesStarted_def logEvent_def split: if_splits)
qed

lemma runSystem_at_most_one:
  "noCompletion w \<Longrightarrow>
   noCompletion (runSystem evs w)
   \<and> pipelinesStarted (runSystem evs w)
       \<le> pipelinesStarted w + (if Active (PrepTask w) then 0 else 1)
   \<and> (Active (PrepTask w) \<longrightarrow> Active (PrepTask (runSystem evs w)))"
proof (induction evs arbitrary: w)
  case Nil
  then show ?case by simp
next
  case (Cons ev evs)
  show ?case
  proof (cases ev)
    case (Reconcile pc)
    let ?w1 = "snd (handlePrep pc w)"
    have n1: "noCompletion ?w1" by (rule noCompletion_handlePrep [OF Cons.prems])
    note s = started_handlePrep [OF Cons.prems, of pc]
    note ih = Cons.IH [OF n1]
    show ?thesis using ih s Reconcile by (auto split: if_splits)
  next
    case (WorkerProgress msg)
    have n1: "noCompletion (setProgress msg w)"
      using Cons.prems by (simp add: noCompletion_setProgress)
    have p: "pipelinesStarted (setProgress msg w) = pipelinesStarted w"
      "Active (PrepTask (setProgress msg w)) = Active (PrepTask w)"
      by (simp_all add: pipelinesStarted_def setProgress_def)
    show ?thesis using Cons.IH [OF n1] p WorkerProgress by auto
  qed
qed

text \<open>
  Claim C1, as amended. Start from a state with no completed worker and run any sequence
  of dispatcher invocations, each with its own outcomes of the environment checks, with
  progress writes of a running worker in between and no worker completion. At most one
  worker pipeline is started, and none if the task was already active. An invocation
  that passes the environment checks and finds the task inactive allocates a fresh, open
  completion signal, sets active, clears success, sets the initial progress, launches
  the worker and asks for a short requeue. An invocation that finds the task active, or
  that fails the environment checks (it then returns their error), leaves the task state
  as it is and starts nothing.
\<close>

theorem handlePrep_starts_at_most_one:
  assumes "noCompletion w"
  shows "pipelinesStarted (runSystem evs w)
        \<le> pipelinesStarted w + (if Active (PrepTask w) then 0 else 1)
    \<and> (\<not> Active (PrepTask w) \<and> envChecksPass pc \<longrightarrow>
          fst (handlePrep pc w)
            = (requeueWithShortInterval, None, Some (PrepInProgress ''Prep stage initialized''))
          \<and> PrepTask (snd (handlePrep pc w))
            = (PrepTask w)\<lparr>doneChan := Some (nextChan w), Active := True, Success := False,
                 Progress := ''Prep stage initialized''\<rparr>
          \<and> \<not> doneFired (snd (handlePrep pc w))
          \<and> pipelinesStarted (snd (handlePrep pc w)) = pipelinesStarted w + 1)
    \<and> (Active (PrepTask w) \<longrightarrow>
          PrepTask (snd (handlePrep pc w)) = PrepTask w
          \<and> pipelinesStarted (snd (handlePrep pc w)) = pipelinesStarted w)
    \<and> (\<not> envChecksPass pc \<longrightarrow>
          (\<exists>e. fst (handlePrep pc w) = (doNotRequeue, Some e, None))
          \<and> PrepTask (snd (handlePrep pc w)) = PrepTask w
          \<and> pipelinesStarted (snd (handlePrep pc w)) = pipelinesStarted w)"
proof (intro conjI impI)
  show "pipelinesStarted (runSystem evs w)
        \<le> pipelinesStarted w + (if Active (PrepTask w) then 0 else 1)"
    using runSystem_at_most_one [OF assms] by blast
next
  assume a: "\<not> Active (PrepTask w) \<and> envChecksPass pc"
  let ?w1 = "if os_IsNotExist (pcStatWorkspace pc) then logEvent EvMkdir w else w"
  have i: "\<not> Active (PrepTask ?w1)" using a by (simp add: logEvent_def)
  have h: "handlePrep pc w = handlePrep_switch ?w1"
    using a by (simp add: handlePrep_checks_pass)
  show "fst (handlePrep pc w)
      = (requeueWithShortInterval, None, Some (PrepInProgress ''Prep stage initialized''))"
    by (simp add: h switch_start [OF i])
  show "PrepTask (snd (handlePrep pc w))
      = (PrepTask w)\<lparr>doneChan := Some (nextChan w), Active := True, Success := False,
           Progress := ''Prep stage initialized''\<rparr>"
    unfolding h switch_start [OF i] by (simp add: logEvent_def)
  show "pipelinesStarted (snd (handlePrep pc w)) = pipelinesStarted w + 1"
    using started_handlePrep [OF assms, of pc] a by simp
  have "noCompletion (snd (handlePrep pc w))" by (rule noCompletion_handlePrep [OF assms])
  moreover have "Active (PrepTask (snd (handlePrep pc w)))"
    using started_handlePrep [OF assms, of pc] a by simp
  ultimately show "\<not> doneFired (snd (handlePrep pc w))" by (simp add: noCompletion_def)
next
  assume a: "Active (PrepTask w)"
  then have nf: "\<not> doneFired w" using assms by (simp add: noCompletion_def)
  show "pipelinesStarted (snd (handlePrep pc w)) = pipelinesStarted w"
    using started_handlePrep [OF assms, of pc] a by simp
  show "PrepTask (snd (handlePrep pc w)) = PrepTask w"
  proof (cases "envChecksPass pc")
    case True
    let ?w1 = "if os_IsNotExist (pcStatWorkspace pc) then logEvent EvMkdir w else w"
    have "Active (PrepTask ?w1)" "\<not> doneFired ?w1"
      using a nf by (simp_all add: doneFired_Mkdir) (simp add: logEvent_def)
    then show ?thesis
      unfolding handlePrep_checks_pass [OF True] by (simp add: switch_running logEvent_def)
  next
    case False
    from handlePrep_checks_fail [OF False, of w] show ?thesis
      by (auto simp: logEvent_def)
  qed
next
  assume a: "\<not> envChecksPass pc"
  show "pipelinesStarted (snd (handlePrep pc w)) = pipelinesStarted w"
    using started_handlePrep [OF assms, of pc] a by simp
  from handlePrep_checks_fail [OF a, of w] show "PrepTask (snd (handlePrep pc w)) = PrepTask w"
    by (auto simp: logEvent_def)
  from handlePrep_checks_fail [OF a, of w]
  show "\<exists>e. fst (handlePrep pc w) = (doNotRequeue, Some e, None)" by auto
qed

theorem handlePrep_starts_at_most_one_witness:
  "noCompletion world0
   \<and> \<not> Active (PrepTask world0) \<and> envChecksPass pcOk \<and> \<not> envChecksPass pcNoHost
   \<and> pipelinesStarted world0 = 0
   \<and> pipelinesStarted
         (runSystem [Reconcile pcNoHost, Reconcile pcOk, WorkerProgress ''Pulling seed image'',
            Reconcile pcNewWorkspace, Reconcile pcOk] world0) \<le> 1
   \<and> PrepTask (snd (handlePrep pcOk world0))
       = \<lparr>Active = True, Success = False, Progress = ''Prep stage initialized'',
          Cancel = None, doneChan = Some 0\<rparr>
   \<and> \<not> doneFired (snd (handlePrep pcOk world0))
   \<and> pipelinesStarted (snd (handlePrep pcOk world0)) = 1
   \<and> pipelinesStarted (snd (handlePrep pcNoHost world0)) = 0"
proof -
  let ?evs = "[Reconcile pcNoHost, Reconcile pcOk, WorkerProgress ''Pulling seed image'',
            Reconcile pcNewWorkspace, Reconcile pcOk]"
  have n: "noCompletion world0" by (simp add: noCompletion_def world0_def)
  have i: "\<not> Active (PrepTask world0)" "pipelinesStarted world0 = 0" "nextChan world0 = 0"
    by (simp_all add: world0_def pipelinesStarted_def)
  have p: "envChecksPass pcOk" "\<not> envChecksPass pcNoHost"
    by (simp_all add: envChecksPass_def pcOk_def pcNoHost_def os_IsNotExist_def)
  note t1 = handlePrep_starts_at_most_one [OF n, of ?evs pcOk]
  note t2 = handlePrep_starts_at_most_one [OF n, of ?evs pcNoHost]
  have b: "pipelinesStarted (runSystem ?evs world0) \<le> 1"
    using t1 i by simp
  have s: "PrepTask (snd (handlePrep pcOk world0))
        = (PrepTask world0)\<lparr>doneChan := Some (nextChan world0), Active := True,
             Success := False, Progress := ''Prep stage initialized''\<rparr>"
    "\<not> doneFired (snd (handlePrep pcOk world0))"
    "pipelinesStarted (snd (handlePrep pcOk world0)) = pipelinesStarted world0 + 1"
    using t1 i(1) p(1) by blast+
  have z: "pipelinesStarted (snd (handlePrep pcNoHost world0)) = pipelinesStarted world0"
    using t2 p(2) by blast
  show ?thesis
    using n i p b s z by (simp add: world0_def)
qed

text \<open>
  The claim as written lets the first invocation with an inactive task start the worker.
  When the host directory is missing that invocation returns the error of the check: no
  completion signal is allocated, the task stays inactive and nothing is launched.
\<close>

theorem handlePrep_first_invocation_counterexample:
  "\<not> Active (PrepTask world0)
   \<and> handlePrep pcNoHost world0
       = ((doNotRequeue, Some (Wrapped ''host dir does not exist: '' ErrNotExist), None), world0)
   \<and> doneChan (PrepTask (snd (handlePrep pcNoHost world0))) = None
   \<and> \<not> Active (PrepTask (snd (handlePrep pcNoHost world0)))
   \<and> pipelinesStarted (snd (handlePrep pcNoHost world0)) = 0"
  by (simp add: handlePrep_def pcNoHost_def world0_def pipelinesStarted_def)

text \<open>
  Claim C4, as amended. On a dispatcher invocation that passes the environment checks
  while the task is active: if the completion signal has fired, the dispatcher publishes
  Completed when success is true and Failed otherwise, with the final progress, resets
  the task (every field back to its initial value, the handles released) and returns
  no-requeue; if it has not fired, the dispatcher publishes the current progress as
  in-progress, leaves the task as it is and asks for a short requeue. The test of the
  signal is a value of the state, so neither case waits. An invocation that fails the
  environment checks returns their error with no-requeue, publishes nothing and leaves
  the task as it is.
\<close>

theorem handlePrep_active:
  fixes w :: world and pc :: preconds
  assumes "Active (PrepTask w)"
  defines "w1 \<equiv> (if os_IsNotExist (pcStatWorkspace pc) then logEvent EvMkdir w else w)"
  shows "(envChecksPass pc \<and> doneFired w \<longrightarrow>
           handlePrep pc w
             = ((doNotRequeue, None,
                 Some (if Success (PrepTask w) then PrepCompleted (Progress (PrepTask w))
                       else PrepFailed (Progress (PrepTask w)))),
                w1\<lparr>PrepTask := Reset (PrepTask w)\<rparr>))
    \<and> (envChecksPass pc \<and> \<not> doneFired w \<longrightarrow>
           handlePrep pc w
             = ((requeueWithShortInterval, None, Some (PrepInProgress (Progress (PrepTask w)))),
                w1))
    \<and> (\<not> envChecksPass pc \<longrightarrow>
           (\<exists>e. fst (handlePrep pc w) = (doNotRequeue, Some e, None))
           \<and> PrepTask (snd (handlePrep pc w)) = PrepTask w)
    \<and> Reset (PrepTask w)
        = \<lparr>Active = False, Success = False, Progress = [], Cancel = None, doneChan = None\<rparr>"
proof (intro conjI impI)
  have t: "PrepTask w1 = PrepTask w" "doneFired w1 = doneFired w" "Active (PrepTask w1)"
    using assms(1) by (simp_all add: w1_def doneFired_Mkdir) (simp_all add: logEvent_def)
  {
    assume a: "envChecksPass pc \<and> doneFired w"
    then have f: "doneFired w1" using t by simp
    show "handlePrep pc w
             = ((doNotRequeue, None,
                 Some (if Success (PrepTask w) then PrepCompleted (Progress (PrepTask w))
                       else PrepFailed (Progress (PrepTask w)))),
                w1\<lparr>PrepTask := Reset (PrepTask w)\<rparr>)"
      using a handlePrep_checks_pass [of pc w] switch_finished [OF t(3) f] t(1)
      by (simp add: w1_def)
  }
  {
    assume a: "envChecksPass pc \<and> \<not> doneFired w"
    then have f: "\<not> doneFired w1" using t by simp
    show "handlePrep pc w
             = ((requeueWithShortInterval, None, Some (PrepInProgress (Progress (PrepTask w)))),
                w1)"
      using a handlePrep_checks_pass [of pc w] switch_running [OF t(3) f] t(1)
      by (simp add: w1_def)
  }
  {
    assume a: "\<not> envChecksPass pc"
    from handlePrep_checks_fail [OF a, of w]
    show "\<exists>e. fst (handlePrep pc w) = (doNotRequeue, Some e, None)" by auto
    from handlePrep_checks_fail [OF a, of w]
    show "PrepTask (snd (handlePrep pc w)) = PrepTask w" by (auto simp: logEvent_def)
  }
  show "Reset (PrepTask w)
        = \<lparr>Active = False, Success = False, Progress = [], Cancel = None, doneChan = None\<rparr>"
    by (simp add: Reset_def)
qed

theorem handlePrep_active_witness:
  "Active (PrepTask worldFinished) \<and> doneFired worldFinished
   \<and> Active (PrepTask worldStarted) \<and> \<not> doneFired worldStarted
   \<and> envChecksPass pcOk
   \<and> handlePrep pcOk worldFinished
       = ((doNotRequeue, None, Some (PrepCompleted ''Prep completed successfully'')),
          worldFinished\<lparr>PrepTask :=
            \<lparr>Active = False, Success = False, Progress = [], Cancel = None, doneChan = None\<rparr>\<rparr>)
   \<and> handlePrep pcOk worldStarted
       = ((requeueWithShortInterval, None, Some (PrepInProgress ''Prep stage initialized'')),
          worldStarted)"
proof -
  have a: "Active (PrepTask worldFinished)" "Active (PrepTask worldStarted)"
    by (simp_all add: worldFinished_def worldStarted_def)
  have f: "doneFired worldFinished" "\<not> doneFired worldStarted"
    by (simp_all add: worldFinished_def worldStarted_def doneFired_def chanClosed_def)
  have p: "envChecksPass pcOk" "\<not> os_IsNotExist (pcStatWorkspace pcOk)"
    by (simp_all add: envChecksPass_def pcOk_def os_IsNotExist_def)
  have v: "Success (PrepTask worldFinished)"
    "Progress (PrepTask worldFinished) = ''Prep completed successfully''"
    "Progress (PrepTask worldStarted) = ''Prep stage initialized''"
    by (simp_all add: worldFinished_def worldStarted_def)
  show ?thesis
    using handlePrep_active [OF a(1), of pcOk] handlePrep_active [OF a(2), of pcOk] a f p v
    by simp
qed

text \<open>
  The claim as written speaks of every invocation while the task is active. With the
  host directory missing, an invocation on an active task whose completion signal has
  fired returns the error of the check: it publishes no status and does not reset the
  task.
\<close>

theorem handlePrep_active_counterexample:
  "Active (PrepTask worldFinished) \<and> doneFired worldFinished
   \<and> handlePrep pcNoHost worldFinished
       = ((doNotRequeue, Some (Wrapped ''host dir does not exist: '' ErrNotExist), None),
          worldFinished)"
  by (simp add: handlePrep_def pcNoHost_def worldFinished_def doneFired_def chanClosed_def)

end
